theory Spec2Isabelle
  imports Main "HOL-Library.Sublist" "HOL-Library.List_Lexorder" "HOL-Library.Char_ord"
begin

section \<open>Strings\<close>

text \<open>
  A JavaScript string is a sequence of UTF-16 code units. This development works with
  HOL's \<^typ>\<open>string\<close>, whose characters are the code units below \<open>0x100\<close>; the
  white space recognised by \<open>String.prototype.trim\<close> and by \<open>\s\<close> in a regular
  expression is, in that range, TAB, LF, VT, FF, CR, SPACE and NO-BREAK SPACE.
\<close>

definition is_space :: "char \<Rightarrow> bool" where
  "is_space c = (c \<in> {CHR 0x09, CHR 0x0A, CHR 0x0B, CHR 0x0C, CHR 0x0D, CHR '' '', CHR 0xA0})"

definition trimEnd :: "string \<Rightarrow> string" where
  "trimEnd s = rev (dropWhile is_space (rev s))"

definition trim :: "string \<Rightarrow> string" where
  "trim s = trimEnd (dropWhile is_space s)"

definition upper_letters :: string where
  "upper_letters = ''ABCDEFGHIJKLMNOPQRSTUVWXYZ'' @
     [CHR 0xC0, CHR 0xC1, CHR 0xC2, CHR 0xC3, CHR 0xC4, CHR 0xC5, CHR 0xC6, CHR 0xC7,
      CHR 0xC8, CHR 0xC9, CHR 0xCA, CHR 0xCB, CHR 0xCC, CHR 0xCD, CHR 0xCE, CHR 0xCF,
      CHR 0xD0, CHR 0xD1, CHR 0xD2, CHR 0xD3, CHR 0xD4, CHR 0xD5, CHR 0xD6,
      CHR 0xD8, CHR 0xD9, CHR 0xDA, CHR 0xDB, CHR 0xDC, CHR 0xDD, CHR 0xDE]"

definition lower_letters :: string where
  "lower_letters = ''abcdefghijklmnopqrstuvwxyz'' @
     [CHR 0xE0, CHR 0xE1, CHR 0xE2, CHR 0xE3, CHR 0xE4, CHR 0xE5, CHR 0xE6, CHR 0xE7,
      CHR 0xE8, CHR 0xE9, CHR 0xEA, CHR 0xEB, CHR 0xEC, CHR 0xED, CHR 0xEE, CHR 0xEF,
      CHR 0xF0, CHR 0xF1, CHR 0xF2, CHR 0xF3, CHR 0xF4, CHR 0xF5, CHR 0xF6,
      CHR 0xF8, CHR 0xF9, CHR 0xFA, CHR 0xFB, CHR 0xFC, CHR 0xFD, CHR 0xFE]"

definition lower :: "char \<Rightarrow> char" where
  "lower c = (case map_of (zip upper_letters lower_letters) c of Some d \<Rightarrow> d | None \<Rightarrow> c)"

definition toLowerCase :: "string \<Rightarrow> string" where
  "toLowerCase s = map lower s"

text \<open>\<open>Array.prototype.join\<close> on an array of strings.\<close>

fun join :: "string \<Rightarrow> string list \<Rightarrow> string" where
  "join sep [] = []"
| "join sep [x] = x"
| "join sep (x # y # ys) = x @ sep @ join sep (y # ys)"

text \<open>\<open>String.prototype.split\<close> with a one-character separator.\<close>

fun split :: "char \<Rightarrow> string \<Rightarrow> string \<Rightarrow> string list" where
  "split sep acc [] = [rev acc]"
| "split sep acc (c # cs) =
     (if c = sep then rev acc # split sep [] cs else split sep (c # acc) cs)"

text \<open>
  \<open>String.prototype.split\<close> with the separator \<^verbatim>\<open>/\r?\n|,/\<close>: at each position
  the first alternative (an optional CR, then LF) is tried before the second (a comma).
\<close>

fun split_stops :: "string \<Rightarrow> string \<Rightarrow> string list" where
  "split_stops acc [] = [rev acc]"
| "split_stops acc (c # cs) =
     (if c = CHR 0x0D then
        (case cs of
           d # ds \<Rightarrow> if d = CHR 0x0A then rev acc # split_stops [] ds
                     else split_stops (c # acc) cs
         | [] \<Rightarrow> split_stops (c # acc) cs)
      else if c = CHR 0x0A \<or> c = CHR '','' then rev acc # split_stops [] cs
      else split_stops (c # acc) cs)"


section \<open>Values and the host\<close>

text \<open>
  The values the program handles come from \<open>JSON.parse\<close>. Numbers are IEEE doubles in
  the program; their type is a parameter here, and the operations of the engine on them
  are fields of the record \<open>host\<close> below.
\<close>

datatype 'n jsval =
    JUndefined
  | JNull
  | JBool bool
  | JNum 'n
  | JStr string
  | JArr "'n jsval list"
  | JObj "(string \<times> 'n jsval) list"

text \<open>The factory functions of the provider SDK that \<open>index.js\<close> imports.\<close>

datatype factory =
    createAnthropic | createCohere | createDeepSeek | createGoogleGenerativeAI
  | createGroq | createMistral | createOpenAI | createOpenAICompatible | createXai

text \<open>
  Everything handed to the SDK for the one generation request: the factory and the
  options object it is called with, whether the model handle is obtained through
  \<open>instance.chatModel\<close> (provider \<open>local\<close>), the model name, and the arguments of
  \<open>generateText\<close>. \<open>None\<close> stands for a property that is absent or \<open>undefined\<close>.
\<close>

record 'n request =
  req_factory :: factory
  req_apiKey :: "string option"
  req_baseURL :: "string option"
  req_chatModel :: bool
  req_model :: string
  req_prompt :: string
  req_system :: "string option"
  req_temperature :: "'n option"
  req_maxTokens :: "'n option"
  req_topP :: "'n option"
  req_stopSequences :: "string list option"
  req_timeoutMs :: "'n option"

text \<open>
  The places of \<open>index.js\<close> at which the engine itself raises a \<open>TypeError\<close>:
  reading \<open>job.params\<close>, the calls of \<open>prompt.trim\<close>, \<open>factory\<close> and
  \<open>provider\<close>, and the conversion of an object to a string or a number by
  \<open>String\<close> and \<open>Number\<close>.
\<close>

datatype site =
    Read_params_of_undefined
  | Read_params_of_null
  | Call_prompt_trim
  | Call_factory string
  | Call_provider
  | Convert_to_primitive

text \<open>
  What the program takes from its platform. \<open>JSON_parse\<close> returns \<open>Inl\<close> of the
  error's message where \<open>JSON.parse\<close> throws. \<open>Number_of\<close> is \<open>Number\<close> on
  the values that are not objects. \<open>TypeError_message\<close> is the engine's wording of
  the message of a \<open>TypeError\<close>.

  The provider SDK is called at two places. \<open>sdk_model\<close> stands for
  \<open>factory(opts)\<close> and \<open>provider(modelName)\<close> (lines 179 and 185, with nothing
  between them that writes or throws): the message of the error where one of them
  throws, \<open>None\<close> where the model handle is obtained; its arguments are the factory,
  the options \<open>apiKey\<close> and \<open>baseURL\<close>, whether the handle comes from
  \<open>instance.chatModel\<close>, and the model name. \<open>sdk\<close> stands for
  \<open>generateText\<close>, which is raced against the abort timer: \<open>Inl\<close> of the message
  where it throws or rejects, \<open>Inr\<close> of the result object otherwise.
\<close>

record 'n host =
  JSON_parse :: "string \<Rightarrow> string + 'n jsval"
  Number_truthy :: "'n \<Rightarrow> bool"
  Number_toString :: "'n \<Rightarrow> string"
  Number_of :: "'n jsval \<Rightarrow> 'n"
  Number_isFinite :: "'n \<Rightarrow> bool"
  Number_literal :: "int \<Rightarrow> 'n"
  TypeError_message :: "site \<Rightarrow> string"
  sdk_model :: "factory \<Rightarrow> string option \<Rightarrow> string option \<Rightarrow> bool \<Rightarrow> string \<Rightarrow> string option"
  sdk :: "'n request \<Rightarrow> string + 'n jsval"

text \<open>\<open>ToBoolean\<close>.\<close>

fun truthy :: "'n host \<Rightarrow> 'n jsval \<Rightarrow> bool" where
  "truthy h JUndefined = False"
| "truthy h JNull = False"
| "truthy h (JBool b) = b"
| "truthy h (JNum n) = Number_truthy h n"
| "truthy h (JStr s) = (s \<noteq> [])"
| "truthy h (JArr xs) = True"
| "truthy h (JObj kvs) = True"

text \<open>\<open>a || b\<close>.\<close>

definition or_else :: "'n host \<Rightarrow> 'n jsval \<Rightarrow> 'n jsval \<Rightarrow> 'n jsval" where
  "or_else h a b = (if truthy h a then a else b)"

text \<open>
  \<open>f(x)\<close> where the evaluation of \<open>x\<close> may throw: the error of \<open>x\<close>, or \<open>f\<close>
  of its value.
\<close>

definition and_then :: "'e + 'a \<Rightarrow> ('a \<Rightarrow> 'e + 'b) \<Rightarrow> 'e + 'b" where
  "and_then r f = (case r of Inl e \<Rightarrow> Inl e | Inr x \<Rightarrow> f x)"

text \<open>
  \<open>String(value)\<close>. An object is converted by its method \<open>toString\<close>: the
  inherited one returns \<open>[object Object]\<close>; an own property \<open>toString\<close> of an object
  that \<open>JSON.parse\<close> returned is not a function, \<open>valueOf\<close> returns the object
  itself, and the conversion throws a \<open>TypeError\<close>. An array is the join of its
  elements by a comma, where \<open>null\<close> and \<open>undefined\<close> elements give the empty
  string and the other elements are converted in their order.
\<close>

fun String_of :: "'n host \<Rightarrow> 'n jsval \<Rightarrow> site + string"
  and Strings_of :: "'n host \<Rightarrow> 'n jsval list \<Rightarrow> site + string list" where
  "String_of h JUndefined = Inr ''undefined''"
| "String_of h JNull = Inr ''null''"
| "String_of h (JBool b) = Inr (if b then ''true'' else ''false'')"
| "String_of h (JNum n) = Inr (Number_toString h n)"
| "String_of h (JStr s) = Inr s"
| "String_of h (JArr xs) = and_then (Strings_of h xs) (\<lambda>ss. Inr (join '','' ss))"
| "String_of h (JObj kvs) =
     (if map_of kvs ''toString'' \<noteq> None then Inl Convert_to_primitive
      else Inr ''[object Object]'')"
| "Strings_of h [] = Inr []"
| "Strings_of h (x # xs) =
     and_then (if x = JUndefined \<or> x = JNull then Inr [] else String_of h x)
       (\<lambda>s. and_then (Strings_of h xs) (\<lambda>ss. Inr (s # ss)))"

text \<open>\<open>array.map(String)\<close>: every element is converted by \<open>String\<close>, in order.\<close>

fun map_String :: "'n host \<Rightarrow> 'n jsval list \<Rightarrow> site + string list" where
  "map_String h [] = Inr []"
| "map_String h (x # xs) =
     and_then (String_of h x) (\<lambda>s. and_then (map_String h xs) (\<lambda>ss. Inr (s # ss)))"

text \<open>
  \<open>Number(value)\<close>. An object or an array is first converted to a primitive value:
  \<open>valueOf\<close> returns the object itself, so the primitive value is the string that
  \<open>toString\<close> returns, and the conversion throws where \<open>String\<close> does.
\<close>

definition Number_conv :: "'n host \<Rightarrow> 'n jsval \<Rightarrow> site + 'n" where
  "Number_conv h v =
     (case v of
        JArr xs \<Rightarrow> and_then (String_of h v) (\<lambda>s. Inr (Number_of h (JStr s)))
      | JObj kvs \<Rightarrow> and_then (String_of h v) (\<lambda>s. Inr (Number_of h (JStr s)))
      | _ \<Rightarrow> Inr (Number_of h v))"

text \<open>
  \<open>value.name\<close> for a value other than \<open>null\<close> and \<open>undefined\<close> and a name that
  no prototype defines (all the names read from the job are such): the own property of
  an object, \<open>undefined\<close> otherwise.
\<close>

definition get :: "'n jsval \<Rightarrow> string \<Rightarrow> 'n jsval" where
  "get v name =
     (case v of
        JObj kvs \<Rightarrow> (case map_of kvs name of Some x \<Rightarrow> x | None \<Rightarrow> JUndefined)
      | _ \<Rightarrow> JUndefined)"


section \<open>The tables\<close>

definition PROVIDERS :: "(string \<times> factory) list" where
  "PROVIDERS =
     [(''anthropic'', createAnthropic),
      (''cohere'', createCohere),
      (''deepseek'', createDeepSeek),
      (''google'', createGoogleGenerativeAI),
      (''groq'', createGroq),
      (''mistral'', createMistral),
      (''openai'', createOpenAI),
      (''local'', createOpenAICompatible),
      (''xai'', createXai)]"

definition PROVIDER_ENV :: "(string \<times> string) list" where
  "PROVIDER_ENV =
     [(''anthropic'', ''ANTHROPIC_API_KEY''),
      (''cohere'', ''COHERE_API_KEY''),
      (''deepseek'', ''DEEPSEEK_API_KEY''),
      (''google'', ''GOOGLE_API_KEY''),
      (''groq'', ''GROQ_API_KEY''),
      (''mistral'', ''MISTRAL_API_KEY''),
      (''openai'', ''OPENAI_API_KEY''),
      (''local'', ''LOCAL_API_KEY''),
      (''xai'', ''XAI_API_KEY'')]"

definition OPTIONAL_KEY_PROVIDERS :: "string set" where
  "OPTIONAL_KEY_PROVIDERS = {}"

text \<open>
  Both tables are object literals, so \<open>table[name]\<close> finds, besides the entries
  written in the literal, the members that every object inherits from
  \<open>Object.prototype\<close>.
\<close>

definition Object_prototype :: "string list" where
  "Object_prototype =
     [''constructor'', ''__defineGetter__'', ''__defineSetter__'', ''hasOwnProperty'',
      ''__lookupGetter__'', ''__lookupSetter__'', ''isPrototypeOf'',
      ''propertyIsEnumerable'', ''toString'', ''valueOf'', ''__proto__'',
      ''toLocaleString'']"

datatype 'a property = Own 'a | Inherited string | Absent

definition lookup :: "(string \<times> 'a) list \<Rightarrow> string \<Rightarrow> 'a property" where
  "lookup table name =
     (case map_of table name of
        Some v \<Rightarrow> Own v
      | None \<Rightarrow> if name \<in> set Object_prototype then Inherited name else Absent)"

text \<open>
  \<open>String(v)\<close> for an inherited member \<open>v\<close>: \<open>__proto__\<close> is the prototype object
  itself, \<open>constructor\<close> is the function \<open>Object\<close>, every other member is a built-in
  function of its own name.
\<close>

definition String_of_inherited :: "string \<Rightarrow> string" where
  "String_of_inherited name =
     (if name = ''__proto__'' then ''[object Object]''
      else ''function '' @ (if name = ''constructor'' then ''Object'' else name)
           @ ''() { [native code] }'')"


section \<open>The process\<close>

text \<open>
  The payloads of \<open>index.js\<close>: \<open>{xy: 1, code: 0, data}\<close> and
  \<open>{xy: 1, code, description}\<close>.
\<close>

datatype 'n envelope = Success "'n jsval" | Failure string string

text \<open>
  \<open>stdout\<close> lists the payloads passed to \<open>process.stdout.write\<close>, in order; each is
  written as \<open>JSON.stringify(payload)\<close> and a newline, that is, as one line.
  \<open>exit_code\<close> is the status that the callback of a write passes to \<open>process.exit\<close>.
  The callback runs once the write has completed, not inside \<open>writeExit\<close>: control
  returns to the caller of \<open>writeExit\<close>.
\<close>

record 'n process =
  stdout :: "'n envelope list"
  exit_code :: "int option"

definition start :: "'n process" where
  "start = \<lparr>stdout = [], exit_code = None\<rparr>"

definition writeExit :: "'n envelope \<Rightarrow> 'n process \<Rightarrow> 'n process" where
  "writeExit payload p = p\<lparr>stdout := stdout p @ [payload], exit_code := Some 0\<rparr>"

definition fail :: "string \<Rightarrow> string \<Rightarrow> 'n process \<Rightarrow> 'n process" where
  "fail code description p = writeExit (Failure code description) p"

text \<open>
  \<open>readJob\<close> returns the parsed job. On its two failure paths it returns what
  \<open>fail\<close> returns, which is \<open>undefined\<close>, after the write.
\<close>

definition readJob :: "'n host \<Rightarrow> string \<Rightarrow> 'n process \<Rightarrow> 'n jsval \<times> 'n process" where
  "readJob h stdin p =
     (let raw = trim stdin in
      if raw = [] then (JUndefined, fail ''input'' ''No JSON input received on STDIN.'' p)
      else (case JSON_parse h raw of
              Inr job \<Rightarrow> (job, p)
            | Inl message \<Rightarrow>
                (JUndefined, fail ''input'' (''Failed to parse JSON input: '' @ message) p)))"

definition parseNumber :: "'n host \<Rightarrow> 'n jsval \<Rightarrow> 'n option \<Rightarrow> site + 'n option" where
  "parseNumber h v fallback =
     (if v = JUndefined \<or> v = JNull \<or> v = JStr [] then Inr fallback
      else and_then (Number_conv h v)
             (\<lambda>num. Inr (if Number_isFinite h num then Some num else fallback)))"

definition parseStopSequences :: "'n host \<Rightarrow> 'n jsval \<Rightarrow> site + string list option" where
  "parseStopSequences h v =
     (if \<not> truthy h v then Inr None
      else (case v of
              JArr xs \<Rightarrow>
                and_then (map_String h xs) (\<lambda>ss. Inr (Some (filter (\<lambda>s. s \<noteq> []) ss)))
            | _ \<Rightarrow>
                and_then (String_of h v)
                  (\<lambda>s. let parts = filter (\<lambda>s. s \<noteq> []) (map trim (split_stops [] s))
                       in Inr (if parts \<noteq> [] then Some parts else None))))"


section \<open>Response interpretation\<close>

text \<open>
  \<open>candidate.match(re)\<close> for the regular expression
  \<^verbatim>\<open>/```(?:json)?\s*([\s\S]*?)\s*```/i\<close>, as the backtracking matcher of the
  engine runs it; the result is the first capture group. The pieces, from the right:
\<close>

definition fence :: string where
  "fence = ''```''"

text \<open>
  \<^verbatim>\<open>\s*```\<close>: the star is greedy, so a white-space character is consumed first and
  the fence is tried at the current position only when that fails.
\<close>

fun closing :: "string \<Rightarrow> bool" where
  "closing [] = False"
| "closing (c # cs) = ((is_space c \<and> closing cs) \<or> prefix fence (c # cs))"

text \<open>
  \<^verbatim>\<open>([\s\S]*?)\<close> before it: the star is lazy, so the rest of the pattern is tried
  first and the group takes one more character (any character) only when that fails.
\<close>

fun capture :: "string \<Rightarrow> string \<Rightarrow> string option" where
  "capture acc [] = None"
| "capture acc (c # cs) =
     (if closing (c # cs) then Some (rev acc) else capture (c # acc) cs)"

text \<open>\<^verbatim>\<open>\s*\<close> before the group, greedy.\<close>

fun leading :: "string \<Rightarrow> string option" where
  "leading [] = capture [] []"
| "leading (c # cs) =
     (if is_space c then
        (case leading cs of Some g \<Rightarrow> Some g | None \<Rightarrow> capture [] (c # cs))
      else capture [] (c # cs))"

text \<open>
  \<^verbatim>\<open>(?:json)?\<close>, greedy: with the tag first, without it when that fails. The flag
  \<open>i\<close> makes the four letters match in either case.
\<close>

definition tagged :: "string \<Rightarrow> string option" where
  "tagged s =
     (if toLowerCase (take 4 s) = ''json'' then
        (case leading (drop 4 s) of Some g \<Rightarrow> Some g | None \<Rightarrow> leading s)
      else leading s)"

definition match_at :: "string \<Rightarrow> string option" where
  "match_at s = (if prefix fence s then tagged (drop 3 s) else None)"

text \<open>The match is the one at the leftmost position that has one.\<close>

fun match_fenced :: "string \<Rightarrow> string option" where
  "match_fenced [] = None"
| "match_fenced (c # cs) =
     (case match_at (c # cs) of Some g \<Rightarrow> Some g | None \<Rightarrow> match_fenced cs)"

record 'n json_result =
  parsed :: "'n jsval"
  jsonText :: "'n jsval"

text \<open>The local variable \<open>candidate\<close> of \<open>extractJson\<close> after its two assignments.\<close>

definition candidate_of :: "string \<Rightarrow> string" where
  "candidate_of text =
     (let candidate = trim text in
      case match_fenced candidate of
        Some group1 \<Rightarrow> trim group1
      | None \<Rightarrow> candidate)"

definition bracketed :: "string \<Rightarrow> bool" where
  "bracketed candidate =
     ((prefix ''{'' candidate \<and> suffix ''}'' candidate)
      \<or> (prefix ''['' candidate \<and> suffix '']'' candidate))"

definition extractJson :: "'n host \<Rightarrow> string \<Rightarrow> 'n json_result" where
  "extractJson h text =
     (if text = [] then \<lparr>parsed = JNull, jsonText = JNull\<rparr>
      else (let candidate = candidate_of text in
            if candidate = [] then \<lparr>parsed = JNull, jsonText = JNull\<rparr>
            else if \<not> bracketed candidate then \<lparr>parsed = JNull, jsonText = JNull\<rparr>
            else (case JSON_parse h candidate of
                    Inr v \<Rightarrow> \<lparr>parsed = v, jsonText = JStr candidate\<rparr>
                  | Inl message \<Rightarrow> \<lparr>parsed = JNull, jsonText = JStr candidate\<rparr>)))"


section \<open>Provider selection\<close>

record model_info =
  provider :: string
  model :: string

definition normalizeModel :: "'n host \<Rightarrow> 'n jsval \<Rightarrow> site + model_info option" where
  "normalizeModel h v =
     and_then (String_of h (or_else h v (JStr [])))
       (\<lambda>s. let raw = trim s in
             Inr (if raw = [] then None
                  else (case split (CHR ''/'') [] raw of
                          first # second # rest \<Rightarrow>
                            Some \<lparr>provider = toLowerCase first,
                                  model = join ''/'' (second # rest)\<rparr>
                        | _ \<Rightarrow> None)))"

text \<open>
  \<open>a || b\<close> where \<open>a\<close> is a string or \<open>undefined\<close> and \<open>b\<close> a string; the
  environment maps the name of a variable that is set to its value.
\<close>

definition or_string :: "string option \<Rightarrow> string \<Rightarrow> string" where
  "or_string a b = (case a of Some v \<Rightarrow> if v \<noteq> [] then v else b | None \<Rightarrow> b)"

text \<open>
  The property key that \<open>process.env[PROVIDER_ENV[provider]]\<close> reads: the key of
  \<open>undefined\<close> is the string \<open>undefined\<close>.
\<close>

definition env_key :: "string \<Rightarrow> string" where
  "env_key providerName =
     (case lookup PROVIDER_ENV providerName of
        Own var \<Rightarrow> var
      | Inherited member \<Rightarrow> String_of_inherited member
      | Absent \<Rightarrow> ''undefined'')"

definition resolveApiKey :: "(string \<rightharpoonup> string) \<Rightarrow> string \<Rightarrow> string" where
  "resolveApiKey env providerName =
     or_string (env (env_key providerName)) (or_string (env ''AI_API_KEY'') [])"

text \<open>
  What \<open>buildProvider\<close> returns: \<open>null\<close>, a provider function of the SDK (the
  factory, the options \<open>apiKey\<close> and \<open>baseURL\<close>, and whether it is the wrapper around
  \<open>instance.chatModel\<close>), or a value that is not a function. The last arises when
  \<open>factory\<close> is an inherited member: \<open>Object(opts)\<close> returns \<open>opts\<close> and
  \<open>toString\<close> returns a string, the other built-in functions throw a \<open>TypeError\<close>
  when called without a receiver, and \<open>__proto__\<close> is not a function.
\<close>

datatype provider_value =
    No_provider
  | Provider factory "string option" "string option" bool
  | Not_callable

definition buildProvider :: "string \<Rightarrow> string \<Rightarrow> string \<Rightarrow> site + provider_value" where
  "buildProvider providerName apiKey baseURL =
     (case lookup PROVIDERS providerName of
        Absent \<Rightarrow> Inr No_provider
      | Own factory \<Rightarrow>
          Inr (Provider factory
                 (if apiKey \<noteq> [] then Some apiKey else None)
                 (if baseURL \<noteq> [] then Some baseURL else None)
                 (providerName = ''local''))
      | Inherited member \<Rightarrow>
          if member = ''constructor'' \<or> member = ''toString'' then Inr Not_callable
          else Inl (Call_factory member))"


section \<open>The main flow\<close>

definition expectJson :: "'n host \<Rightarrow> 'n jsval \<Rightarrow> site + bool" where
  "expectJson h v =
     and_then (String_of h (or_else h v (JStr [])))
       (\<lambda>s. Inr (toLowerCase s = ''true'' \<or> v = JBool True))"

text \<open>Line 216: the text of the result of \<open>generateText\<close>.\<close>

definition result_text :: "'n host \<Rightarrow> 'n jsval \<Rightarrow> string" where
  "result_text h result =
     (if truthy h result
      then (case get result ''text'' of JStr s \<Rightarrow> s | _ \<Rightarrow> [])
      else [])"

text \<open>Lines 217 to 227: from that text to the final write.\<close>

definition respond :: "'n host \<Rightarrow> bool \<Rightarrow> string \<Rightarrow> 'n process \<Rightarrow> 'n process" where
  "respond h expect text p =
     (let jsonResult = extractJson h text
      in if expect \<and> \<not> truthy h (parsed jsonResult) then
           fail ''json''
             (if truthy h (jsonText jsonResult) then ''Invalid JSON returned by model.''
              else ''No JSON returned by model.'') p
         else writeExit
                (Success (if truthy h (parsed jsonResult) then parsed jsonResult
                          else JObj [(''text'', JStr text)])) p)"

text \<open>
  The stages of the body of the main function return \<open>Inl\<close> of the message of the
  error thrown, or \<open>Inr\<close> of the process after the stage has run to its \<open>return\<close>.
  No stage writes before it throws. \<open>thrown\<close> is the message of a \<open>TypeError\<close> of
  the engine.
\<close>

definition thrown :: "'n host \<Rightarrow> site + 'a \<Rightarrow> string + 'a" where
  "thrown h r = (case r of Inl s \<Rightarrow> Inl (TypeError_message h s) | Inr x \<Rightarrow> Inr x)"

text \<open>
  Lines 185 to 214: the model handle, the arguments of the request in the order of their
  evaluation, and the request.
\<close>

definition generate ::
  "'n host \<Rightarrow> 'n jsval \<Rightarrow> string \<Rightarrow> provider_value \<Rightarrow> string \<Rightarrow> 'n process
    \<Rightarrow> string + 'n process" where
  "generate h params prompt built modelName p =
     (case built of
        Provider factory apiKey baseURL chat \<Rightarrow>
          (case sdk_model h factory apiKey baseURL chat modelName of
             Some message \<Rightarrow> Inl message
           | None \<Rightarrow>
  and_then (thrown h (parseNumber h (get params ''temperature'') None)) (\<lambda>temperature.
  and_then (thrown h (parseNumber h (get params ''max_tokens'') None)) (\<lambda>maxTokens.
  and_then (thrown h (parseNumber h (get params ''top_p'') None)) (\<lambda>topP.
  and_then (thrown h (parseStopSequences h (get params ''stop_sequences''))) (\<lambda>stopSequences.
  and_then (thrown h (if truthy h (get params ''system_prompt'')
                      then and_then (String_of h (get params ''system_prompt''))
                             (\<lambda>s. Inr (Some s))
                      else Inr None)) (\<lambda>system.
  and_then (thrown h (expectJson h (get params ''expect_json''))) (\<lambda>expect.
  and_then (thrown h (parseNumber h (get params ''timeout_ms'')
                        (Some (Number_literal h 60000)))) (\<lambda>timeoutMs.
  and_then (sdk h \<lparr>req_factory = factory,
                   req_apiKey = apiKey,
                   req_baseURL = baseURL,
                   req_chatModel = chat,
                   req_model = modelName,
                   req_prompt = prompt,
                   req_system = system,
                   req_temperature = temperature,
                   req_maxTokens = maxTokens,
                   req_topP = topP,
                   req_stopSequences = stopSequences,
                   req_timeoutMs = timeoutMs\<rparr>) (\<lambda>result.
  Inr (respond h expect (result_text h result) p))))))))))
      | _ \<Rightarrow> Inl (TypeError_message h Call_provider))"

text \<open>Lines 168 to 183: the key and the provider.\<close>

definition resolve ::
  "'n host \<Rightarrow> (string \<rightharpoonup> string) \<Rightarrow> 'n jsval \<Rightarrow> string \<Rightarrow> string \<Rightarrow> string \<Rightarrow> string
    \<Rightarrow> 'n process \<Rightarrow> string + 'n process" where
  "resolve h env params prompt baseURL providerName modelName p =
     (let apiKey = resolveApiKey env providerName in
      if providerName = ''local'' \<and> baseURL = [] then
        Inr (fail ''params'' (''Parameter '' @ [CHR 0x27] @ ''base_url'' @ [CHR 0x27]
               @ '' is required for provider '' @ [CHR 0x27] @ ''local'' @ [CHR 0x27] @ ''.'') p)
      else if apiKey = [] \<and> baseURL = [] \<and> providerName \<notin> OPTIONAL_KEY_PROVIDERS then
        (let envName = (case lookup PROVIDER_ENV providerName of
                          Own var \<Rightarrow> var
                        | Inherited member \<Rightarrow> String_of_inherited member
                        | Absent \<Rightarrow> ''AI_API_KEY'')
         in Inr (fail ''env'' (''Missing API key. Set '' @ envName @ '' or AI_API_KEY.'') p))
      else (case buildProvider providerName apiKey baseURL of
              Inl site \<Rightarrow> Inl (TypeError_message h site)
            | Inr No_provider \<Rightarrow>
                Inr (fail ''params''
                       (''Unsupported provider '' @ [CHR 0x27] @ providerName @ [CHR 0x27]
                        @ ''. Supported providers: ''
                        @ join '', '' (sort (map fst PROVIDERS)) @ ''.'') p)
            | Inr built \<Rightarrow> generate h params prompt built modelName p))"

text \<open>Lines 147 and 148: the local variables \<open>baseURL\<close> and \<open>modelRaw\<close>.\<close>

definition baseURL_of :: "'n host \<Rightarrow> 'n jsval \<Rightarrow> site + string" where
  "baseURL_of h params =
     (if truthy h (get params ''base_url'')
      then and_then (String_of h (get params ''base_url'')) (\<lambda>s. Inr (trim s))
      else Inr [])"

definition modelRaw_of :: "'n host \<Rightarrow> 'n jsval \<Rightarrow> site + string" where
  "modelRaw_of h params =
     and_then (String_of h (or_else h (get params ''model'') (JStr []))) (\<lambda>s. Inr (trim s))"

text \<open>Line 157: the model name when a base URL is given.\<close>

definition strip_local :: "string \<Rightarrow> string" where
  "strip_local modelRaw =
     (if prefix ''local/'' (toLowerCase modelRaw) then drop 6 modelRaw else modelRaw)"

text \<open>Lines 149 to 166: the provider name and the model name.\<close>

definition select ::
  "'n host \<Rightarrow> (string \<rightharpoonup> string) \<Rightarrow> 'n jsval \<Rightarrow> string \<Rightarrow> 'n process
    \<Rightarrow> string + 'n process" where
  "select h env params prompt p =
     and_then (thrown h (baseURL_of h params)) (\<lambda>baseURL.
     and_then (thrown h (modelRaw_of h params)) (\<lambda>modelRaw.
       if modelRaw = [] then
         Inr (fail ''params'' (''Required parameter '' @ [CHR 0x27] @ ''model'' @ [CHR 0x27]
                @ '' was not provided.'') p)
       else if baseURL \<noteq> [] then
         resolve h env params prompt baseURL ''local'' (strip_local modelRaw) p
       else
         and_then (thrown h (normalizeModel h (JStr modelRaw))) (\<lambda>modelInfo.
           case modelInfo of
             None \<Rightarrow>
               Inr (fail ''params'' (''Parameter '' @ [CHR 0x27] @ ''model'' @ [CHR 0x27]
                      @ '' must be in the form '' @ [CHR 0x27] @ ''provider/model''
                      @ [CHR 0x27] @ ''.'') p)
           | Some info \<Rightarrow>
               resolve h env params prompt baseURL (provider info) (model info) p)))"

text \<open>
  Lines 143 to 145. Reading \<open>params\<close> of \<open>undefined\<close> or \<open>null\<close> throws, and so
  does calling \<open>prompt.trim\<close> when \<open>prompt\<close> is not a string: no other value that
  \<open>JSON.parse\<close> returns has a method \<open>trim\<close>.
\<close>

definition body ::
  "'n host \<Rightarrow> (string \<rightharpoonup> string) \<Rightarrow> 'n jsval \<Rightarrow> 'n process \<Rightarrow> string + 'n process" where
  "body h env job p =
     (if job = JUndefined then Inl (TypeError_message h Read_params_of_undefined)
      else if job = JNull then Inl (TypeError_message h Read_params_of_null)
      else (let params = or_else h (get job ''params'') (JObj []);
                prompt = or_else h (get params ''prompt'') (JStr [])
            in case prompt of
                 JStr s \<Rightarrow>
                   if trim s = [] then
                     Inr (fail ''params'' (''Required parameter '' @ [CHR 0x27] @ ''prompt''
                            @ [CHR 0x27] @ '' was not provided.'') p)
                   else select h env params s p
               | _ \<Rightarrow> Inl (TypeError_message h Call_prompt_trim)))"

text \<open>
  The main function from the job on, with its \<open>catch\<close>: an error thrown in the body
  is reported by \<open>fail\<close> with the code \<open>error\<close>.
\<close>

definition run :: "'n host \<Rightarrow> (string \<rightharpoonup> string) \<Rightarrow> 'n jsval \<Rightarrow> 'n process \<Rightarrow> 'n process" where
  "run h env job p =
     (case body h env job p of
        Inl message \<Rightarrow> fail ''error'' (if message \<noteq> [] then message else ''Unknown error'') p
      | Inr p' \<Rightarrow> p')"

text \<open>One invocation: the environment and the text on standard input.\<close>

definition main :: "'n host \<Rightarrow> (string \<rightharpoonup> string) \<Rightarrow> string \<Rightarrow> 'n process" where
  "main h env stdin = (case readJob h stdin start of (job, p) \<Rightarrow> run h env job p)"


section \<open>The specification's wording\<close>

text \<open>
  The definitions of this section do not come from \<open>index.js\<close>. They write down what
  the specification says, for comparison with the definitions above.

  A fenced block: the text between the first triple backtick and the next one after it.
  \<open>split_fence\<close> cuts a text at its first triple backtick.
\<close>

fun split_fence :: "string \<Rightarrow> (string \<times> string) option" where
  "split_fence [] = None"
| "split_fence (c # cs) =
     (if prefix fence (c # cs) then Some ([], drop 3 (c # cs))
      else map_option (\<lambda>(before, rest). (c # before, rest)) (split_fence cs))"

definition spec_first_block :: "string \<Rightarrow> string option" where
  "spec_first_block s =
     (case split_fence s of
        None \<Rightarrow> None
      | Some (before, rest) \<Rightarrow> map_option fst (split_fence rest))"

text \<open>The block is optionally tagged \<open>json\<close>.\<close>

definition spec_untag :: "string \<Rightarrow> string" where
  "spec_untag block = (if toLowerCase (take 4 block) = ''json'' then drop 4 block else block)"

definition spec_candidate :: "string \<Rightarrow> string" where
  "spec_candidate text =
     (case spec_first_block (trim text) of
        Some block \<Rightarrow> trim (spec_untag block)
      | None \<Rightarrow> trim text)"

text \<open>
  The model identifier as the specification words it: split on the first slash, the
  provider segment lower-cased, the model name the remainder; nothing without a slash.
\<close>

definition spec_split_model :: "string \<Rightarrow> model_info option" where
  "spec_split_model s =
     (if CHR ''/'' \<in> set s
      then Some \<lparr>provider = toLowerCase (takeWhile (\<lambda>c. c \<noteq> CHR ''/'') s),
                 model = tl (dropWhile (\<lambda>c. c \<noteq> CHR ''/'') s)\<rparr>
      else None)"

text \<open>
  Key resolution as the specification words it: the provider-specific variable when
  set, otherwise \<open>AI_API_KEY\<close> when set, otherwise the empty string.
\<close>

definition spec_resolveApiKey :: "(string \<rightharpoonup> string) \<Rightarrow> string \<Rightarrow> string" where
  "spec_resolveApiKey env providerName =
     (case Option.bind (map_of PROVIDER_ENV providerName) env of
        Some v \<Rightarrow> v
      | None \<Rightarrow> (case env ''AI_API_KEY'' of Some v \<Rightarrow> v | None \<Rightarrow> []))"

text \<open>
  The JSON-expectation flag as the specification words it: the boolean \<open>true\<close>, or a
  string equal to \<open>true\<close> up to case, and nothing else.
\<close>

definition spec_expectJson :: "'n jsval \<Rightarrow> bool" where
  "spec_expectJson v =
     (case v of JBool b \<Rightarrow> b | JStr s \<Rightarrow> toLowerCase s = ''true'' | _ \<Rightarrow> False)"


text \<open>The response of the specification's example: the object in a fence tagged \<open>json\<close>.\<close>

definition fenced_example :: string where
  \<open>fenced_example = ''```json'' @ [CHR 0x0A] @ ''{"a":1}'' @ [CHR 0x0A] @ ''```''\<close>


section \<open>A host for the examples\<close>

text \<open>
  Numbers are integers, printed in decimal; \<open>JSON.parse\<close> knows the texts of the
  examples; the SDK builds every model handle and answers every request with the text
  \<open>hello\<close>.
\<close>

fun digits :: "nat \<Rightarrow> string" where
  "digits n =
     (if n < 10 then [''0123456789'' ! n]
      else digits (n div 10) @ [''0123456789'' ! (n mod 10)])"

definition show_int :: "int \<Rightarrow> string" where
  "show_int i = (if i < 0 then ''-'' @ digits (nat (- i)) else digits (nat i))"

definition example_texts :: "(string \<times> int jsval) list" where
  \<open>example_texts =
     [(''{"a":1}'', JObj [(''a'', JNum 1)]),
      (''{"params":{"prompt":5,"model":"openai/gpt-5.1"}}'',
       JObj [(''params'', JObj [(''prompt'', JNum 5), (''model'', JStr ''openai/gpt-5.1'')])]),
      (''{"params":{"model":"openai/gpt-5.1"}}'',
       JObj [(''params'', JObj [(''model'', JStr ''openai/gpt-5.1'')])])]\<close>

definition example_messages :: "site \<Rightarrow> string" where
  "example_messages s =
     (case s of
        Read_params_of_undefined \<Rightarrow>
          ''Cannot read properties of undefined (reading '' @ [CHR 0x27] @ ''params''
          @ [CHR 0x27] @ '')''
      | Read_params_of_null \<Rightarrow>
          ''Cannot read properties of null (reading '' @ [CHR 0x27] @ ''params''
          @ [CHR 0x27] @ '')''
      | Call_prompt_trim \<Rightarrow> ''prompt.trim is not a function''
      | Call_factory member \<Rightarrow> ''factory is not a function''
      | Call_provider \<Rightarrow> ''provider is not a function''
      | Convert_to_primitive \<Rightarrow> ''Cannot convert object to primitive value'')"

definition example_host :: "int host" where
  "example_host =
     \<lparr>JSON_parse =
        (\<lambda>s. case map_of example_texts s of
                Some v \<Rightarrow> Inr v
              | None \<Rightarrow> Inl ''Unexpected token''),
      Number_truthy = (\<lambda>n. n \<noteq> 0),
      Number_toString = show_int,
      Number_of = (\<lambda>v. case v of JNum n \<Rightarrow> n | _ \<Rightarrow> 0),
      Number_isFinite = (\<lambda>n. True),
      Number_literal = (\<lambda>i. i),
      TypeError_message = example_messages,
      sdk_model = (\<lambda>factory apiKey baseURL chat modelName. None),
      sdk = (\<lambda>req. Inr (JObj [(''text'', JStr ''hello'')]))\<rparr>"


section \<open>Facts about the string functions\<close>

declare digits.simps [simp del]

lemma trim_simps: "trim s = rev (dropWhile is_space (rev (dropWhile is_space s)))"
  by (simp add: trim_def trimEnd_def)

lemmas lower_eval = toLowerCase_def lower_def upper_letters_def lower_letters_def

lemma split_not_Nil: "split sep acc s \<noteq> []"
  by (induction s arbitrary: acc) auto

lemma join_Cons: "join sep (x # xs) = (if xs = [] then x else x @ sep @ join sep xs)"
  by (cases xs) auto

lemma join_split: "join [sep] (split sep acc s) = rev acc @ s"
  by (induction s arbitrary: acc) (auto simp: join_Cons split_not_Nil)

lemma split_eq:
  "split sep acc s =
     (if sep \<in> set s
      then (rev acc @ takeWhile (\<lambda>c. c \<noteq> sep) s)
           # split sep [] (tl (dropWhile (\<lambda>c. c \<noteq> sep) s))
      else [rev acc @ s])"
  by (induction s arbitrary: acc) auto

lemma and_then_Inr [simp]: "and_then (Inr x) f = f x"
  by (simp add: and_then_def)

lemma and_then_Inl [simp]: "and_then (Inl e) f = Inl e"
  by (simp add: and_then_def)

lemma and_then_eq_Inr: "and_then r f = Inr y \<longleftrightarrow> (\<exists>x. r = Inr x \<and> f x = Inr y)"
  by (cases r) auto

lemma thrown_Inr [simp]: "thrown h (Inr x) = Inr x"
  by (simp add: thrown_def)

lemma thrown_Inl [simp]: "thrown h (Inl s) = Inl (TypeError_message h s)"
  by (simp add: thrown_def)

lemma thrown_eq_Inr: "thrown h r = Inr x \<longleftrightarrow> r = Inr x"
  by (cases r) auto

lemma normalizeModel_raw: "normalizeModel h (JStr s) = Inr (spec_split_model (trim s))"
proof -
  have s: "String_of h (or_else h (JStr s) (JStr [])) = Inr s" by (simp add: or_else_def)
  show ?thesis
  proof (cases "CHR ''/'' \<in> set (trim s)")
    case False
    then have "split (CHR ''/'') [] (trim s) = [trim s]" by (subst split_eq) simp
    with False show ?thesis by (simp add: normalizeModel_def s Let_def spec_split_model_def)
  next
    case True
    let ?t = "tl (dropWhile (\<lambda>c. c \<noteq> CHR ''/'') (trim s))"
    obtain second rest where sr: "split (CHR ''/'') [] ?t = second # rest"
      using split_not_Nil [of "CHR ''/''" "[]" ?t] by (cases "split (CHR ''/'') [] ?t") auto
    have "join ''/'' (split (CHR ''/'') [] ?t) = ?t"
      using join_split [of "CHR ''/''" "[]" ?t] by simp
    with sr have j: "join ''/'' (second # rest) = ?t" by simp
    have sp: "split (CHR ''/'') [] (trim s) =
        takeWhile (\<lambda>c. c \<noteq> CHR ''/'') (trim s) # second # rest"
      using True sr by (subst split_eq) simp
    from True have "trim s \<noteq> []" by auto
    with True sp j show ?thesis
      by (simp add: normalizeModel_def s Let_def spec_split_model_def del: join.simps)
  qed
qed



section \<open>The regular expression of \<open>extractJson\<close>\<close>

text \<open>
  The backtracking matcher finds what the specification describes: the text between the
  first triple backtick and the next one, without the tag \<open>json\<close>, trimmed.
\<close>

lemma fence_simps: "prefix fence s \<longleftrightarrow> (\<exists>r. s = CHR 0x60 # CHR 0x60 # CHR 0x60 # r)"
  by (auto simp: fence_def prefix_def)

lemma not_space_tick [simp]: "\<not> is_space (CHR 0x60)"
  by (simp add: is_space_def)

lemma prefix_fence_not_space: "prefix fence (c # cs) \<Longrightarrow> \<not> is_space c"
  by (auto simp: fence_simps)

lemma closing_iff: "closing s \<longleftrightarrow> prefix fence (dropWhile is_space s)"
proof (induction s)
  case Nil
  show ?case by (simp add: fence_def)
next
  case (Cons c cs)
  show ?case
  proof (cases "is_space c")
    case True
    then have "\<not> prefix fence (c # cs)" using prefix_fence_not_space by blast
    with True Cons show ?thesis by simp
  next
    case False
    then show ?thesis by simp
  qed
qed

lemma split_fence_append: "split_fence s = Some (b, r) \<Longrightarrow> s = b @ fence @ r"
proof (induction s arbitrary: b)
  case Nil then show ?case by simp
next
  case (Cons c cs)
  show ?case
  proof (cases "prefix fence (c # cs)")
    case True
    with Cons.prems have "b = []" "r = drop 3 (c # cs)" by auto
    moreover from True obtain t where "c # cs = fence @ t" by (auto simp: prefix_def)
    ultimately show ?thesis by (simp add: fence_def)
  next
    case False
    with Cons.prems obtain b' where "split_fence cs = Some (b', r)" "b = c # b'"
      by (auto split: prod.splits)
    with Cons.IH show ?thesis by simp
  qed
qed

lemma split_fence_spaces:
  "prefix fence (dropWhile is_space s) \<Longrightarrow> \<exists>r. split_fence s = Some (takeWhile is_space s, r)"
proof (induction s)
  case Nil then show ?case by (simp add: fence_def)
next
  case (Cons c cs)
  show ?case
  proof (cases "is_space c")
    case True
    then have "\<not> prefix fence (c # cs)" using prefix_fence_not_space by blast
    with True Cons show ?thesis by auto
  next
    case False
    with Cons.prems show ?thesis by simp
  qed
qed

lemma trimEnd_spaces: "\<forall>c \<in> set s. is_space c \<Longrightarrow> trimEnd s = []"
  by (simp add: trimEnd_def)

lemma trimEnd_Cons: "\<not> (\<forall>x \<in> set (c # s). is_space x) \<Longrightarrow> trimEnd (c # s) = c # trimEnd s"
  by (auto simp: trimEnd_def dropWhile_append)

lemma capture_eq:
  "capture acc s = (case split_fence s of None \<Rightarrow> None | Some (b, r) \<Rightarrow> Some (rev acc @ trimEnd b))"
proof (induction s arbitrary: acc)
  case Nil then show ?case by simp
next
  case (Cons c cs)
  show ?case
  proof (cases "closing (c # cs)")
    case True
    then have "prefix fence (dropWhile is_space (c # cs))" by (simp only: closing_iff)
    then obtain r where r: "split_fence (c # cs) = Some (takeWhile is_space (c # cs), r)"
      using split_fence_spaces by blast
    have "trimEnd (takeWhile is_space (c # cs)) = []"
      by (rule trimEnd_spaces) (auto dest: set_takeWhileD)
    with True r show ?thesis by simp
  next
    case False
    then have nf: "\<not> prefix fence (c # cs)" by auto
    show ?thesis
    proof (cases "split_fence cs")
      case None
      with False nf Cons.IH show ?thesis by simp
    next
      case (Some br)
      obtain b r where br: "br = (b, r)" by (cases br)
      from Some br have cs: "cs = b @ fence @ r" using split_fence_append by blast
      have "\<not> (\<forall>x \<in> set (c # b). is_space x)"
      proof
        assume a: "\<forall>x \<in> set (c # b). is_space x"
        then have "dropWhile is_space (c # cs) = fence @ r"
          unfolding cs by (simp add: dropWhile_append3 fence_def)
        then have "closing (c # cs)" by (simp only: closing_iff) simp
        with False show False by simp
      qed
      then have "trimEnd (c # b) = c # trimEnd b" by (rule trimEnd_Cons)
      with False nf Some br Cons.IH show ?thesis by simp
    qed
  qed
qed


lemma split_fence_Cons:
  "c \<noteq> CHR 0x60 \<Longrightarrow>
   split_fence (c # cs) = map_option (\<lambda>(before, rest). (c # before, rest)) (split_fence cs)"
  by (auto simp: fence_simps)

lemma split_fence_dropWhile:
  "split_fence s = Some (b, r) \<Longrightarrow>
   split_fence (dropWhile is_space s) = Some (dropWhile is_space b, r)"
proof (induction s arbitrary: b)
  case Nil then show ?case by simp
next
  case (Cons c cs)
  show ?case
  proof (cases "is_space c")
    case True
    then have "c \<noteq> CHR 0x60" by auto
    then have "split_fence (c # cs) =
        map_option (\<lambda>(before, rest). (c # before, rest)) (split_fence cs)"
      by (rule split_fence_Cons)
    with Cons.prems obtain b' where "split_fence cs = Some (b', r)" "b = c # b'"
      by (auto simp del: split_fence.simps split: prod.splits)
    with True Cons.IH show ?thesis by simp
  next
    case False
    with Cons.prems show ?thesis by (cases b) (auto split: if_splits prod.splits)
  qed
qed

lemma split_fence_dropWhile_None:
  "split_fence s = None \<Longrightarrow> split_fence (dropWhile is_space s) = None"
proof (induction s)
  case Nil then show ?case by simp
next
  case (Cons c cs)
  then show ?case by (cases "is_space c") (auto split: if_splits)
qed

lemma capture_dropWhile:
  "capture [] (dropWhile is_space s) =
     (case split_fence s of None \<Rightarrow> None | Some (b, r) \<Rightarrow> Some (trim b))"
proof (cases "split_fence s")
  case None
  then show ?thesis using split_fence_dropWhile_None [OF None] by (simp add: capture_eq)
next
  case (Some br)
  obtain b r where br: "br = (b, r)" by (cases br)
  with Some show ?thesis
    using split_fence_dropWhile [of s b r] by (simp add: capture_eq trim_def)
qed

lemma leading_eq: "leading s = capture [] (dropWhile is_space s)"
proof (induction s)
  case Nil then show ?case by simp
next
  case (Cons c cs)
  show ?case
  proof (cases "is_space c")
    case False then show ?thesis by simp
  next
    case True
    then have c: "c \<noteq> CHR 0x60" by auto
    show ?thesis
    proof (cases "leading cs")
      case (Some g)
      with Cons have "capture [] (dropWhile is_space cs) = Some g" by simp
      with True Some show ?thesis by simp
    next
      case None
      with Cons have "capture [] (dropWhile is_space cs) = None" by simp
      then have "split_fence cs = None"
        by (simp add: capture_dropWhile split: option.splits prod.splits)
      then have "split_fence (c # cs) = None"
        using split_fence_Cons [OF c, of cs] by (simp del: split_fence.simps)
      then have "capture [] (c # cs) = None" by (simp only: capture_eq) simp
      with True None Cons show ?thesis by simp
    qed
  qed
qed

lemma leading_split:
  "leading s = (case split_fence s of None \<Rightarrow> None | Some (b, r) \<Rightarrow> Some (trim b))"
  by (simp only: leading_eq capture_dropWhile)


lemma lower_tick [simp]: "lower (CHR 0x60) = CHR 0x60"
  by (simp add: lower_def upper_letters_def lower_letters_def)

lemma lower_json_not_tick:
  "lower c \<in> set ''json'' \<Longrightarrow> c \<noteq> CHR 0x60"
  by auto

lemma json_take4:
  assumes "toLowerCase (take 4 s) = ''json''"
  obtains c1 c2 c3 c4 t where "s = c1 # c2 # c3 # c4 # t"
    and "c1 \<noteq> CHR 0x60" "c2 \<noteq> CHR 0x60" "c3 \<noteq> CHR 0x60" "c4 \<noteq> CHR 0x60"
proof -
  from assms have "length (toLowerCase (take 4 s)) = 4" by simp
  then have len: "4 \<le> length s" by (simp add: toLowerCase_def)
  then obtain c1 s1 where s1: "s = c1 # s1" by (cases s) auto
  with len obtain c2 s2 where s2: "s1 = c2 # s2" by (cases s1) auto
  with s1 len obtain c3 s3 where s3: "s2 = c3 # s3" by (cases s2) auto
  with s1 s2 len obtain c4 t where s4: "s3 = c4 # t" by (cases s3) auto
  from s1 s2 s3 s4 have s: "s = c1 # c2 # c3 # c4 # t" by simp
  with assms have "lower c1 = CHR ''j''" "lower c2 = CHR ''s''" "lower c3 = CHR ''o''"
    "lower c4 = CHR ''n''" by (auto simp: toLowerCase_def)
  then have "c1 \<noteq> CHR 0x60" "c2 \<noteq> CHR 0x60" "c3 \<noteq> CHR 0x60" "c4 \<noteq> CHR 0x60" by auto
  with s that show thesis by blast
qed

lemma split_fence_spec_untag:
  "split_fence (spec_untag s) = map_option (\<lambda>(b, r). (spec_untag b, r)) (split_fence s)"
proof (cases "toLowerCase (take 4 s) = ''json''")
  case True
  then obtain c1 c2 c3 c4 t where s: "s = c1 # c2 # c3 # c4 # t"
    and n: "c1 \<noteq> CHR 0x60" "c2 \<noteq> CHR 0x60" "c3 \<noteq> CHR 0x60" "c4 \<noteq> CHR 0x60"
    by (rule json_take4)
  have u: "spec_untag s = t" using True s by (simp add: spec_untag_def)
  have sf: "split_fence s = map_option (\<lambda>(b, r). (c1 # c2 # c3 # c4 # b, r)) (split_fence t)"
    unfolding s
    by (simp only: split_fence_Cons [OF n(1)] split_fence_Cons [OF n(2)]
        split_fence_Cons [OF n(3)] split_fence_Cons [OF n(4)])
       (cases "split_fence t"; simp add: case_prod_beta)
  have "\<And>b. toLowerCase (take 4 (c1 # c2 # c3 # c4 # b)) = ''json''"
    using True s by simp
  then have "\<And>b. spec_untag (c1 # c2 # c3 # c4 # b) = b" by (simp add: spec_untag_def)
  then show ?thesis unfolding u sf
    by (cases "split_fence t") (simp_all add: case_prod_beta)
next
  case False
  then have u: "spec_untag s = s" by (simp add: spec_untag_def)
  show ?thesis
  proof (cases "split_fence s")
    case None
    with u show ?thesis by simp
  next
    case (Some br)
    obtain b r where br: "br = (b, r)" by (cases br)
    with Some have s: "s = b @ fence @ r" using split_fence_append by blast
    have "toLowerCase (take 4 b) \<noteq> ''json''"
    proof
      assume a: "toLowerCase (take 4 b) = ''json''"
      then obtain c1 c2 c3 c4 t where "b = c1 # c2 # c3 # c4 # t" by (rule json_take4)
      with s a have "toLowerCase (take 4 s) = ''json''" by simp
      with False show False by simp
    qed
    then have "spec_untag b = b" by (simp add: spec_untag_def)
    with Some br u show ?thesis by simp
  qed
qed

lemma tagged_eq:
  "tagged s = (case split_fence s of None \<Rightarrow> None | Some (b, r) \<Rightarrow> Some (trim (spec_untag b)))"
proof (cases "toLowerCase (take 4 s) = ''json''")
  case False
  then have "tagged s = leading s" by (simp add: tagged_def)
  moreover have "\<And>b r. split_fence s = Some (b, r) \<Longrightarrow> spec_untag b = b"
    using split_fence_spec_untag [of s] False by (auto simp: spec_untag_def)
  ultimately show ?thesis by (auto simp: leading_split split: option.splits)
next
  case True
  then have u: "spec_untag s = drop 4 s" by (simp add: spec_untag_def)
  have l: "leading (drop 4 s) =
      (case split_fence s of None \<Rightarrow> None | Some (b, r) \<Rightarrow> Some (trim (spec_untag b)))"
    using split_fence_spec_untag [of s] unfolding u
    by (auto simp: leading_split split: option.splits)
  show ?thesis
  proof (cases "split_fence s")
    case None
    with l True show ?thesis by (simp add: tagged_def leading_split)
  next
    case (Some br)
    with l True show ?thesis by (cases br) (simp add: tagged_def)
  qed
qed


lemma match_at_eq:
  "match_at s =
     (if prefix fence s
      then (case split_fence (drop 3 s) of None \<Rightarrow> None | Some (b, r) \<Rightarrow> Some (trim (spec_untag b)))
      else None)"
  by (simp add: match_at_def tagged_eq)

lemma split_fence_suffix: "split_fence (x @ y) = None \<Longrightarrow> split_fence y = None"
  by (induction x) (auto split: if_splits)

lemma spec_first_block_Cons:
  "\<not> prefix fence (c # cs) \<Longrightarrow> spec_first_block (c # cs) = spec_first_block cs"
  by (cases "split_fence cs") (auto simp: spec_first_block_def)

lemma spec_first_block_fence:
  "prefix fence s \<Longrightarrow> spec_first_block s = map_option fst (split_fence (drop 3 s))"
  by (cases s) (auto simp: spec_first_block_def)

lemma spec_first_block_overlap:
  assumes "split_fence (drop 2 cs) = None"
  shows "spec_first_block cs = None"
proof (rule ccontr)
  assume "spec_first_block cs \<noteq> None"
  then obtain a r1 where a: "split_fence cs = Some (a, r1)" and r1: "split_fence r1 \<noteq> None"
    by (auto simp: spec_first_block_def split: option.splits)
  from a have "cs = a @ fence @ r1" by (rule split_fence_append)
  then have "cs = (a @ fence) @ r1" by simp
  moreover have "2 \<le> length (a @ fence)" by (simp add: fence_def)
  ultimately have "drop 2 cs = drop 2 (a @ fence) @ r1" by (simp del: append_assoc)
  with assms have "split_fence r1 = None" using split_fence_suffix by metis
  with r1 show False by simp
qed

lemma match_fenced_eq: "match_fenced s = map_option (\<lambda>b. trim (spec_untag b)) (spec_first_block s)"
proof (induction s)
  case Nil
  show ?case by (simp add: spec_first_block_def)
next
  case (Cons c cs)
  show ?case
  proof (cases "prefix fence (c # cs)")
    case False
    then have "match_at (c # cs) = None" by (simp add: match_at_eq)
    with False Cons show ?thesis by (simp add: spec_first_block_Cons)
  next
    case True
    note fb = spec_first_block_fence [OF True]
    show ?thesis
    proof (cases "split_fence (drop 3 (c # cs))")
      case (Some br)
      with True have "match_at (c # cs) = Some (trim (spec_untag (fst br)))"
        by (cases br) (simp add: match_at_eq)
      with Some fb show ?thesis by simp
    next
      case None
      with True have m: "match_at (c # cs) = None" by (simp add: match_at_eq)
      from None have "split_fence (drop 2 cs) = None" by simp
      then have "spec_first_block cs = None" by (rule spec_first_block_overlap)
      with m None fb Cons show ?thesis by simp
    qed
  qed
qed

lemma trimEnd_idem: "trimEnd (trimEnd s) = trimEnd s"
  by (simp add: trimEnd_def)

lemma dropWhile_trimEnd:
  "dropWhile is_space (trimEnd (dropWhile is_space s)) = trimEnd (dropWhile is_space s)"
proof (cases "dropWhile is_space s")
  case Nil
  then show ?thesis by (simp only: trimEnd_def) simp
next
  case (Cons x xs)
  then have x: "\<not> is_space x" using hd_dropWhile [of is_space s] by auto
  then have "trimEnd (x # xs) = x # trimEnd xs" by (intro trimEnd_Cons) auto
  with Cons x show ?thesis by simp
qed

lemma trim_idem: "trim (trim s) = trim s"
  by (simp add: trim_def dropWhile_trimEnd trimEnd_idem)

lemma candidate_of_eq: "candidate_of text = spec_candidate text"
  by (simp add: candidate_of_def spec_candidate_def match_fenced_eq trim_idem
      split: option.splits)


lemma candidate_of_Nil: "candidate_of [] = []"
  by (simp add: candidate_of_def trim_def trimEnd_def)

lemma bracketed_not_Nil: "bracketed c \<Longrightarrow> c \<noteq> []"
  by (auto simp: bracketed_def)

lemma extractJson_eq:
  "extractJson h text =
     (if bracketed (candidate_of text)
      then (case JSON_parse h (candidate_of text) of
              Inr v \<Rightarrow> \<lparr>parsed = v, jsonText = JStr (candidate_of text)\<rparr>
            | Inl message \<Rightarrow> \<lparr>parsed = JNull, jsonText = JStr (candidate_of text)\<rparr>)
      else \<lparr>parsed = JNull, jsonText = JNull\<rparr>)"
proof (cases "text = []")
  case True
  then have "\<not> bracketed (candidate_of text)" using bracketed_not_Nil candidate_of_Nil by auto
  with True show ?thesis by (simp add: extractJson_def)
next
  case False
  then show ?thesis using bracketed_not_Nil [of "candidate_of text"]
    by (auto simp: extractJson_def Let_def)
qed

lemma candidate_of_example:
  \<open>candidate_of fenced_example = ''{"a":1}''\<close>
  by (simp add: fenced_example_def candidate_of_def match_at_def tagged_def fence_def
      toLowerCase_def lower_def upper_letters_def lower_letters_def trim_def trimEnd_def
      is_space_def)

lemma bracketed_example: \<open>bracketed ''{"a":1}''\<close>
  by (simp add: bracketed_def suffix_def)


section \<open>The example host\<close>

lemma digits_set: "set (digits n) \<subseteq> set ''0123456789''"
proof (induction n rule: digits.induct)
  case (1 n)
  have d: "\<And>k. k < 10 \<Longrightarrow> ''0123456789'' ! k \<in> set ''0123456789''"
    by (rule nth_mem) simp
  show ?case
  proof (cases "n < 10")
    case True
    then show ?thesis using d [of n] by (subst digits.simps) simp
  next
    case False
    then have "set (digits (n div 10)) \<subseteq> set ''0123456789''" using 1 by simp
    moreover have "''0123456789'' ! (n mod 10) \<in> set ''0123456789''" by (rule d) simp
    ultimately show ?thesis using False by (subst digits.simps) simp
  qed
qed

lemma show_int_set: "set (show_int i) \<subseteq> set ''-0123456789''"
proof -
  have s: "set ''0123456789'' \<subseteq> set ''-0123456789''" by (rule set_subset_Cons)
  have d: "set (digits k) \<subseteq> set ''-0123456789''" for k
    using digits_set [of k] s by (rule order_trans)
  have m: "set ''-'' \<subseteq> set ''-0123456789''" by simp
  show ?thesis
  proof (cases "i < 0")
    case True
    then have "show_int i = ''-'' @ digits (nat (- i))" by (simp add: show_int_def)
    then show ?thesis using d [of "nat (- i)"] m by (simp only: set_append Un_subset_iff) 
  next
    case False
    then have "show_int i = digits (nat i)" by (simp add: show_int_def)
    then show ?thesis using d [of "nat i"] by simp
  qed
qed

lemma lower_digits: "\<forall>c \<in> set ''-0123456789''. lower c = c"
  by (simp add: lower_def upper_letters_def lower_letters_def)

lemma show_int_not_true: "toLowerCase (show_int i) \<noteq> ''true''"
proof
  assume "toLowerCase (show_int i) = ''true''"
  then have "CHR ''t'' \<in> set (toLowerCase (show_int i))" by simp
  then obtain c where c: "c \<in> set (show_int i)" "lower c = CHR ''t''"
    unfolding toLowerCase_def by auto
  then have d: "c \<in> set ''-0123456789''" using show_int_set by blast
  then have "lower c = c" using lower_digits by blast
  with c(2) d show False by simp
qed

lemma example_host_numbers: "\<forall>n. toLowerCase (Number_toString example_host n) \<noteq> ''true''"
  by (simp add: example_host_def show_int_not_true)

lemma example_parse: \<open>JSON_parse example_host ''{"a":1}'' = Inr (JObj [(''a'', JNum 1)])\<close>
  by (simp add: example_host_def example_texts_def)

lemma example_objects:
  "\<forall>s v. JSON_parse example_host s = Inr v \<and> bracketed s \<longrightarrow>
     (\<exists>kvs. v = JObj kvs) \<or> (\<exists>xs. v = JArr xs)"
  by (auto simp: example_host_def example_texts_def split: if_splits)


section \<open>The output writer\<close>

text \<open>
  Whatever the job, the main function writes one envelope from the job on, and the
  status passed to \<open>process.exit\<close> is 0.
\<close>

lemma respond_writes_once: "\<exists>e. respond h expect response p = writeExit e p"
  by (auto simp: respond_def Let_def fail_def)

lemma generate_writes_once:
  "generate h params prompt built modelName p = Inr p' \<Longrightarrow> \<exists>e. p' = writeExit e p"
  using respond_writes_once
  by (auto simp: generate_def and_then_eq_Inr split: provider_value.splits option.splits)

lemma resolve_writes_once:
  "resolve h env params prompt baseURL providerName modelName p = Inr p' \<Longrightarrow>
     \<exists>e. p' = writeExit e p"
  using generate_writes_once
  by (auto simp: resolve_def Let_def fail_def split: if_splits sum.splits provider_value.splits)

lemma select_writes_once:
  "select h env params prompt p = Inr p' \<Longrightarrow> \<exists>e. p' = writeExit e p"
  using resolve_writes_once
  by (auto simp: select_def and_then_eq_Inr fail_def split: if_splits option.splits)

lemma body_writes_once: "body h env job p = Inr p' \<Longrightarrow> \<exists>e. p' = writeExit e p"
  using select_writes_once
  by (auto simp: body_def Let_def fail_def split: if_splits jsval.splits)

lemma run_writes_once: "\<exists>e. run h env job p = writeExit e p"
proof (cases "body h env job p")
  case (Inl message)
  then show ?thesis by (auto simp: run_def fail_def)
next
  case (Inr p')
  then show ?thesis using body_writes_once by (fastforce simp: run_def)
qed

lemma main_writes:
  "main h env stdin =
     (if trim stdin = [] then
        run h env JUndefined (fail ''input'' ''No JSON input received on STDIN.'' start)
      else (case JSON_parse h (trim stdin) of
              Inr job \<Rightarrow> run h env job start
            | Inl message \<Rightarrow>
                run h env JUndefined
                  (fail ''input'' (''Failed to parse JSON input: '' @ message) start)))"
  by (simp add: main_def readJob_def Let_def split: sum.splits)

lemma main_envelope_count:
  "length (stdout (main h env stdin)) =
     (if trim stdin = [] \<or> isl (JSON_parse h (trim stdin)) then 2 else 1)"
proof -
  have "length (stdout (run h env job p)) = Suc (length (stdout p))" for job p
  proof -
    obtain e where "run h env job p = writeExit e p" using run_writes_once by blast
    then show ?thesis by (simp add: writeExit_def)
  qed
  then show ?thesis
    by (auto simp: main_writes fail_def writeExit_def start_def split: sum.splits)
qed

lemma main_exit_code: "exit_code (main h env stdin) = Some 0"
proof -
  have "exit_code (run h env job p) = Some 0" for job p
  proof -
    obtain e where "run h env job p = writeExit e p" using run_writes_once by blast
    then show ?thesis by (simp add: writeExit_def)
  qed
  then show ?thesis by (simp add: main_writes split: sum.splits)
qed

text \<open>
  C1 (every invocation writes exactly one envelope and exits with status 0) fails where
  \<open>readJob\<close> fails. \<open>fail\<close> does not end the process there: it returns
  \<open>undefined\<close> to \<open>readJob\<close>, which returns it as the job; reading \<open>job.params\<close>
  throws, and the \<open>catch\<close> of the main function calls \<open>fail\<close> a second time. With
  nothing on standard input the program hands two envelopes to
  \<open>process.stdout.write\<close>, the first with the code \<open>input\<close> and the second with the
  code \<open>error\<close>.
\<close>

theorem main_empty_stdin_writes_twice:
  "main h env [] =
     \<lparr>stdout = [Failure ''input'' ''No JSON input received on STDIN.'',
                Failure ''error''
                  (if TypeError_message h Read_params_of_undefined \<noteq> []
                   then TypeError_message h Read_params_of_undefined else ''Unknown error'')],
      exit_code = Some 0\<rparr>"
  by (simp add: main_def readJob_def run_def body_def fail_def writeExit_def start_def
      trim_def trimEnd_def)


section \<open>The prompt\<close>

text \<open>
  C10: when the job was read and its \<open>prompt\<close> is truthy but not a string, calling
  \<open>prompt.trim\<close> throws, the \<open>catch\<close> reports the error, and the program writes the
  one envelope with the code \<open>error\<close> and exits with status 0; a missing or blank
  prompt gives the one envelope with the code \<open>params\<close>.
\<close>

theorem prompt_not_a_string:
  assumes "trim stdin \<noteq> []" and "JSON_parse h (trim stdin) = Inr job"
    and "job \<noteq> JUndefined" and "job \<noteq> JNull"
    and "get (or_else h (get job ''params'') (JObj [])) ''prompt'' = prompt"
  shows "(truthy h prompt \<and> (\<forall>s. prompt \<noteq> JStr s) \<longrightarrow>
            main h env stdin =
              \<lparr>stdout = [Failure ''error''
                          (if TypeError_message h Call_prompt_trim \<noteq> []
                           then TypeError_message h Call_prompt_trim else ''Unknown error'')],
               exit_code = Some 0\<rparr>)
       \<and> (\<not> truthy h prompt \<or> (\<exists>s. prompt = JStr s \<and> trim s = []) \<longrightarrow>
            main h env stdin =
              \<lparr>stdout = [Failure ''params''
                          (''Required parameter '' @ [CHR 0x27] @ ''prompt'' @ [CHR 0x27]
                           @ '' was not provided.'')],
               exit_code = Some 0\<rparr>)"
proof -
  have m: "main h env stdin = run h env job start"
    using assms(1,2) by (simp add: main_def readJob_def Let_def)
  show ?thesis
  proof (cases "truthy h prompt")
    case False
    then have "or_else h prompt (JStr []) = JStr []" by (simp add: or_else_def)
    with False assms(3,4,5) show ?thesis
      unfolding m
      by (simp add: run_def body_def Let_def trim_def trimEnd_def fail_def writeExit_def start_def)
  next
    case True
    then have o: "or_else h prompt (JStr []) = prompt" by (simp add: or_else_def)
    show ?thesis
    proof (cases prompt)
      case (JStr s)
      with True o assms(3,4,5) show ?thesis
        unfolding m
        by (simp add: run_def body_def Let_def fail_def writeExit_def start_def)
    qed (use True o assms(3,4,5) in
          \<open>simp_all add: m run_def body_def Let_def fail_def writeExit_def start_def\<close>)
  qed
qed

text \<open>The witness: the prompt 5, and no prompt, on the example host.\<close>

theorem prompt_not_a_string_witness:
  \<open>main example_host Map.empty ''{"params":{"prompt":5,"model":"openai/gpt-5.1"}}''
     = \<lparr>stdout = [Failure ''error'' ''prompt.trim is not a function''], exit_code = Some 0\<rparr>
   \<and> main example_host Map.empty ''{"params":{"model":"openai/gpt-5.1"}}''
     = \<lparr>stdout = [Failure ''params''
                    (''Required parameter '' @ [CHR 0x27] @ ''prompt'' @ [CHR 0x27]
                     @ '' was not provided.'')],
        exit_code = Some 0\<rparr>\<close>
proof -
  let ?s1 = \<open>''{"params":{"prompt":5,"model":"openai/gpt-5.1"}}''\<close>
  let ?s2 = \<open>''{"params":{"model":"openai/gpt-5.1"}}''\<close>
  let ?j1 = "JObj [(''params'', JObj [(''prompt'', JNum 5), (''model'', JStr ''openai/gpt-5.1'')])]
             :: int jsval"
  let ?j2 = "JObj [(''params'', JObj [(''model'', JStr ''openai/gpt-5.1'')])] :: int jsval"
  have t: "trim ?s1 = ?s1" "trim ?s2 = ?s2" by (simp_all add: trim_simps is_space_def)
  have p: "JSON_parse example_host ?s1 = Inr ?j1" "JSON_parse example_host ?s2 = Inr ?j2"
    by (simp_all add: example_host_def example_texts_def)
  have g: "get (or_else example_host (get ?j1 ''params'') (JObj [])) ''prompt'' = JNum 5"
    "get (or_else example_host (get ?j2 ''params'') (JObj [])) ''prompt'' = JUndefined"
    by (simp_all add: get_def or_else_def)
  have n: "Number_truthy example_host 5" "TypeError_message example_host Call_prompt_trim
      = ''prompt.trim is not a function''"
    by (simp_all add: example_host_def example_messages_def)
  show ?thesis
    using prompt_not_a_string [where h = example_host and stdin = ?s1 and job = ?j1
        and prompt = "JNum 5" and env = Map.empty]
      prompt_not_a_string [where h = example_host and stdin = ?s2 and job = ?j2
        and prompt = JUndefined and env = Map.empty]
    by (simp add: t p g n)
qed


section \<open>The model identifier\<close>

lemma modelRaw_of_trimmed: "modelRaw_of h params = Inr modelRaw \<Longrightarrow> trim modelRaw = modelRaw"
  by (auto simp: modelRaw_of_def and_then_eq_Inr trim_idem)

text \<open>
  C7 as it is worded (the model identifier string is split on its first slash, the model
  name being the remainder) fails for a string with white space at its ends: the string
  is trimmed before it is split. For the model \<open>openai/gpt-5.1\<close> followed by a space,
  the model name is \<open>gpt-5.1\<close> without the space.
\<close>

theorem model_identifier_trimmed_counterexample:
  "normalizeModel example_host (JStr ''openai/gpt-5.1 '')
     = Inr (Some \<lparr>provider = ''openai'', model = ''gpt-5.1''\<rparr>)
   \<and> spec_split_model ''openai/gpt-5.1 ''
     = Some \<lparr>provider = ''openai'', model = ''gpt-5.1 ''\<rparr>
   \<and> select example_host Map.empty (JObj [(''model'', JStr ''openai/gpt-5.1 '')]) ''hi'' start
     = resolve example_host Map.empty (JObj [(''model'', JStr ''openai/gpt-5.1 '')]) ''hi'' []
         ''openai'' ''gpt-5.1'' start"
  by (simp add: normalizeModel_raw spec_split_model_def select_def baseURL_of_def
      modelRaw_of_def get_def or_else_def trim_simps is_space_def lower_eval)

text \<open>
  C7, amended: the model identifier is the model parameter converted to a string and
  trimmed. Without a base URL, an identifier that contains a slash is split at its first
  slash, the part before it lower-cased as the provider name and the part after it, slashes
  included, as the model name; these are what the resolver receives. An identifier
  without a slash ends the run with a failure of the code \<open>params\<close>, whenever the
  prompt is a string or missing.
\<close>

theorem model_identifier_split:
  "normalizeModel h (JStr s) = Inr (spec_split_model (trim s))
   \<and> (baseURL_of h params = Inr [] \<and> modelRaw_of h params = Inr modelRaw
        \<and> CHR ''/'' \<in> set modelRaw \<longrightarrow>
        select h env params prompt p =
          resolve h env params prompt []
            (toLowerCase (takeWhile (\<lambda>c. c \<noteq> CHR ''/'') modelRaw))
            (tl (dropWhile (\<lambda>c. c \<noteq> CHR ''/'') modelRaw)) p)
   \<and> (job \<noteq> JUndefined \<and> job \<noteq> JNull
        \<and> or_else h (get job ''params'') (JObj []) = request
        \<and> or_else h (get request ''prompt'') (JStr []) = JStr given
        \<and> baseURL_of h request = Inr [] \<and> modelRaw_of h request = Inr modelId
        \<and> CHR ''/'' \<notin> set modelId \<longrightarrow>
        run h env job p =
          fail ''params''
            (if trim given = [] then
               ''Required parameter '' @ [CHR 0x27] @ ''prompt'' @ [CHR 0x27]
               @ '' was not provided.''
             else if modelId = [] then
               ''Required parameter '' @ [CHR 0x27] @ ''model'' @ [CHR 0x27]
               @ '' was not provided.''
             else
               ''Parameter '' @ [CHR 0x27] @ ''model'' @ [CHR 0x27]
               @ '' must be in the form '' @ [CHR 0x27] @ ''provider/model''
               @ [CHR 0x27] @ ''.'') p)"
proof (intro conjI impI)
  show "normalizeModel h (JStr s) = Inr (spec_split_model (trim s))"
    by (rule normalizeModel_raw)
next
  assume a: "baseURL_of h params = Inr [] \<and> modelRaw_of h params = Inr modelRaw
        \<and> CHR ''/'' \<in> set modelRaw"
  then have "trim modelRaw = modelRaw" using modelRaw_of_trimmed by blast
  with a show "select h env params prompt p =
       resolve h env params prompt []
         (toLowerCase (takeWhile (\<lambda>c. c \<noteq> CHR ''/'') modelRaw))
         (tl (dropWhile (\<lambda>c. c \<noteq> CHR ''/'') modelRaw)) p"
    by (auto simp: select_def normalizeModel_raw spec_split_model_def)
next
  assume a: "job \<noteq> JUndefined \<and> job \<noteq> JNull
        \<and> or_else h (get job ''params'') (JObj []) = request
        \<and> or_else h (get request ''prompt'') (JStr []) = JStr given
        \<and> baseURL_of h request = Inr [] \<and> modelRaw_of h request = Inr modelId
        \<and> CHR ''/'' \<notin> set modelId"
  then have "trim modelId = modelId" using modelRaw_of_trimmed by blast
  with a show "run h env job p =
          fail ''params''
            (if trim given = [] then
               ''Required parameter '' @ [CHR 0x27] @ ''prompt'' @ [CHR 0x27]
               @ '' was not provided.''
             else if modelId = [] then
               ''Required parameter '' @ [CHR 0x27] @ ''model'' @ [CHR 0x27]
               @ '' was not provided.''
             else
               ''Parameter '' @ [CHR 0x27] @ ''model'' @ [CHR 0x27]
               @ '' must be in the form '' @ [CHR 0x27] @ ''provider/model''
               @ [CHR 0x27] @ ''.'') p"
    by (auto simp: run_def body_def select_def Let_def normalizeModel_raw spec_split_model_def)
qed

text \<open>The witness: \<open>OpenAI/gpt/4o\<close> and \<open>gpt-4o\<close> on the example host.\<close>

theorem model_identifier_split_witness:
  "normalizeModel example_host (JStr ''OpenAI/gpt/4o '')
     = Inr (Some \<lparr>provider = ''openai'', model = ''gpt/4o''\<rparr>)
   \<and> normalizeModel example_host (JStr ''gpt-4o'') = Inr None
   \<and> baseURL_of example_host (JObj [(''model'', JStr ''OpenAI/gpt/4o'')]) = Inr []
   \<and> modelRaw_of example_host (JObj [(''model'', JStr ''OpenAI/gpt/4o'')])
       = Inr ''OpenAI/gpt/4o''
   \<and> select example_host Map.empty (JObj [(''model'', JStr ''OpenAI/gpt/4o'')]) ''hi'' start
       = resolve example_host Map.empty (JObj [(''model'', JStr ''OpenAI/gpt/4o'')]) ''hi'' []
           ''openai'' ''gpt/4o'' start
   \<and> run example_host Map.empty
         (JObj [(''params'', JObj [(''prompt'', JStr ''hi''), (''model'', JStr ''gpt-4o'')])]) start
       = \<lparr>stdout = [Failure ''params''
                      (''Parameter '' @ [CHR 0x27] @ ''model'' @ [CHR 0x27]
                       @ '' must be in the form '' @ [CHR 0x27] @ ''provider/model''
                       @ [CHR 0x27] @ ''.'')],
          exit_code = Some 0\<rparr>"
proof -
  let ?params = "JObj [(''model'', JStr ''OpenAI/gpt/4o'')] :: int jsval"
  let ?request = "JObj [(''prompt'', JStr ''hi''), (''model'', JStr ''gpt-4o'')] :: int jsval"
  let ?job = "JObj [(''params'', ?request)] :: int jsval"
  have b: "baseURL_of example_host ?params = Inr []" "baseURL_of example_host ?request = Inr []"
    by (simp_all add: baseURL_of_def get_def)
  have m: "modelRaw_of example_host ?params = Inr ''OpenAI/gpt/4o''"
    "modelRaw_of example_host ?request = Inr ''gpt-4o''"
    by (simp_all add: modelRaw_of_def get_def or_else_def trim_simps is_space_def)
  have g: "or_else example_host (get ?job ''params'') (JObj []) = ?request"
    "or_else example_host (get ?request ''prompt'') (JStr []) = JStr ''hi''"
    by (simp_all add: get_def or_else_def)
  have t: "trim ''OpenAI/gpt/4o '' = ''OpenAI/gpt/4o''" "trim ''gpt-4o'' = ''gpt-4o''"
    "trim ''hi'' = ''hi''"
    by (simp_all add: trim_simps is_space_def)
  have l: "toLowerCase ''OpenAI'' = ''openai''" by (simp add: lower_eval)
  note i = model_identifier_split
             [where h = example_host and params = ?params and modelRaw = "''OpenAI/gpt/4o''"
                and env = Map.empty and prompt = "''hi''" and p = start and job = ?job
                and request = ?request and given = "''hi''" and modelId = "''gpt-4o''"]
  have n1: "normalizeModel example_host (JStr ''OpenAI/gpt/4o '')
              = Inr (Some \<lparr>provider = ''openai'', model = ''gpt/4o''\<rparr>)"
    using i [where s = "''OpenAI/gpt/4o ''", THEN conjunct1]
    by (simp add: t spec_split_model_def l)
  have n2: "normalizeModel example_host (JStr ''gpt-4o'') = Inr None"
    using i [where s = "''gpt-4o''", THEN conjunct1] by (simp add: t spec_split_model_def)
  have s: "select example_host Map.empty ?params ''hi'' start
       = resolve example_host Map.empty ?params ''hi'' [] ''openai'' ''gpt/4o'' start"
    using i [where s = "[]", THEN conjunct2, THEN conjunct1] by (simp add: b m l)
  have r: "run example_host Map.empty ?job start
       = \<lparr>stdout = [Failure ''params''
                      (''Parameter '' @ [CHR 0x27] @ ''model'' @ [CHR 0x27]
                       @ '' must be in the form '' @ [CHR 0x27] @ ''provider/model''
                       @ [CHR 0x27] @ ''.'')],
          exit_code = Some 0\<rparr>"
    using i [where s = "[]", THEN conjunct2, THEN conjunct2]
    by (simp add: b m g t fail_def writeExit_def start_def)
  show ?thesis by (intro conjI n1 n2 b(1) m(1) s r)
qed


section \<open>The base URL\<close>







section \<open>Key resolution\<close>

text \<open>
  C6 as it is worded (the provider-specific variable when set, otherwise
  \<open>AI_API_KEY\<close> when set, otherwise the empty string) fails for a variable that is set
  to the empty string: \<open>||\<close> passes over it. With \<open>OPENAI_API_KEY\<close> set to the empty
  string and \<open>AI_API_KEY\<close> set to \<open>k\<close>, the key of the provider \<open>openai\<close> is \<open>k\<close>.
\<close>

theorem resolveApiKey_empty_counterexample:
  "resolveApiKey (map_of [(''OPENAI_API_KEY'', []), (''AI_API_KEY'', ''k'')]) ''openai'' = ''k''
   \<and> spec_resolveApiKey (map_of [(''OPENAI_API_KEY'', []), (''AI_API_KEY'', ''k'')]) ''openai''
       = []"
  by (simp add: resolveApiKey_def spec_resolveApiKey_def env_key_def lookup_def PROVIDER_ENV_def
      or_string_def)

text \<open>
  C6, amended: for a provider that has an entry in \<open>PROVIDER_ENV\<close>, the key is the
  value of the provider's variable when that is set and not empty, otherwise the value of
  \<open>AI_API_KEY\<close> when that is set and not empty, otherwise the empty string.
\<close>

theorem resolveApiKey_known_provider:
  assumes "map_of PROVIDER_ENV providerName = Some var"
  shows "(\<forall>v. env var = Some v \<and> v \<noteq> [] \<longrightarrow> resolveApiKey env providerName = v)
    \<and> (\<forall>g. (env var = None \<or> env var = Some []) \<and> env ''AI_API_KEY'' = Some g \<and> g \<noteq> []
          \<longrightarrow> resolveApiKey env providerName = g)
    \<and> ((env var = None \<or> env var = Some [])
          \<and> (env ''AI_API_KEY'' = None \<or> env ''AI_API_KEY'' = Some [])
          \<longrightarrow> resolveApiKey env providerName = [])"
  using assms
  by (auto simp: resolveApiKey_def env_key_def lookup_def or_string_def)

text \<open>The witness: the provider \<open>openai\<close> in four environments.\<close>

theorem resolveApiKey_known_provider_witness:
  "map_of PROVIDER_ENV ''openai'' = Some ''OPENAI_API_KEY''
   \<and> resolveApiKey (map_of [(''OPENAI_API_KEY'', ''sk-1''), (''AI_API_KEY'', ''k'')]) ''openai''
       = ''sk-1''
   \<and> resolveApiKey (map_of [(''OPENAI_API_KEY'', []), (''AI_API_KEY'', ''k'')]) ''openai'' = ''k''
   \<and> resolveApiKey (map_of [(''AI_API_KEY'', ''k'')]) ''openai'' = ''k''
   \<and> resolveApiKey (map_of [(''OPENAI_API_KEY'', [])]) ''openai'' = []"
proof -
  have t: "map_of PROVIDER_ENV ''openai'' = Some ''OPENAI_API_KEY''"
    by (simp add: PROVIDER_ENV_def)
  show ?thesis
    using resolveApiKey_known_provider
            [OF t, of "map_of [(''OPENAI_API_KEY'', ''sk-1''), (''AI_API_KEY'', ''k'')]"]
          resolveApiKey_known_provider
            [OF t, of "map_of [(''OPENAI_API_KEY'', []), (''AI_API_KEY'', ''k'')]"]
          resolveApiKey_known_provider [OF t, of "map_of [(''AI_API_KEY'', ''k'')]"]
          resolveApiKey_known_provider [OF t, of "map_of [(''OPENAI_API_KEY'', [])]"]
          t
    by simp
qed

text \<open>
  For a name without an entry, \<open>PROVIDER_ENV[provider]\<close> is \<open>undefined\<close> and the
  variable read is the one named \<open>undefined\<close>.
\<close>

lemma resolveApiKey_unknown_provider:
  "resolveApiKey (map_of [(''undefined'', ''x''), (''AI_API_KEY'', ''k'')]) ''nosuch'' = ''x''"
  by (simp add: resolveApiKey_def env_key_def lookup_def PROVIDER_ENV_def
      or_string_def Object_prototype_def)


section \<open>The resolver's checks\<close>

text \<open>
  The three checks in their order; the list of the supported providers is the sorted
  list of the keys of \<open>PROVIDERS\<close>.
\<close>

lemma supported_sorted:
  "join '', '' (sort (map fst PROVIDERS)) =
     ''anthropic, cohere, deepseek, google, groq, local, mistral, openai, xai''"
  by code_simp

lemma resolve_checks:
  "providerName = ''local'' \<and> baseURL = [] \<Longrightarrow>
     resolve h env params prompt baseURL providerName modelName p =
       Inr (fail ''params'' (''Parameter '' @ [CHR 0x27] @ ''base_url'' @ [CHR 0x27]
              @ '' is required for provider '' @ [CHR 0x27] @ ''local'' @ [CHR 0x27] @ ''.'') p)"
  "providerName \<noteq> ''local'' \<and> baseURL = [] \<and> resolveApiKey env providerName = [] \<Longrightarrow>
     resolve h env params prompt baseURL providerName modelName p =
       Inr (fail ''env'' (''Missing API key. Set ''
              @ (case lookup PROVIDER_ENV providerName of
                   Own var \<Rightarrow> var
                 | Inherited member \<Rightarrow> String_of_inherited member
                 | Absent \<Rightarrow> ''AI_API_KEY'')
              @ '' or AI_API_KEY.'') p)"
  "(baseURL \<noteq> [] \<or> (providerName \<noteq> ''local'' \<and> resolveApiKey env providerName \<noteq> []))
     \<and> lookup PROVIDERS providerName = Absent \<Longrightarrow>
     resolve h env params prompt baseURL providerName modelName p =
       Inr (fail ''params'' (''Unsupported provider '' @ [CHR 0x27] @ providerName @ [CHR 0x27]
              @ ''. Supported providers: ''
              @ ''anthropic, cohere, deepseek, google, groq, local, mistral, openai, xai''
              @ ''.'') p)"
  by (auto simp: resolve_def Let_def OPTIONAL_KEY_PROVIDERS_def buildProvider_def
      supported_sorted)

text \<open>
  C5 (a provider name that is not in the factory mapping gives a failure of the code
  \<open>params\<close> that lists the supported providers) fails for the names that
  \<open>PROVIDERS\<close> inherits from \<open>Object.prototype\<close>. With the model
  \<open>constructor/x\<close> and a key in \<open>AI_API_KEY\<close>, \<open>PROVIDERS[provider]\<close> is the
  function \<open>Object\<close>, \<open>buildProvider\<close> returns the options object, calling it
  throws, and the envelope has the code \<open>error\<close>.
\<close>

theorem provider_constructor_not_rejected:
  "run h (map_of [(''AI_API_KEY'', ''k'')])
     (JObj [(''params'', JObj [(''prompt'', JStr ''hi''), (''model'', JStr ''constructor/x'')])]) p
   = fail ''error''
       (if TypeError_message h Call_provider \<noteq> []
        then TypeError_message h Call_provider else ''Unknown error'') p"
  by (simp add: run_def body_def get_def or_else_def Let_def trim_def trimEnd_def is_space_def
      select_def baseURL_of_def modelRaw_of_def normalizeModel_raw toLowerCase_def lower_def
      upper_letters_def lower_letters_def resolve_def resolveApiKey_def env_key_def lookup_def
      PROVIDER_ENV_def PROVIDERS_def Object_prototype_def String_of_inherited_def or_string_def
      OPTIONAL_KEY_PROVIDERS_def buildProvider_def generate_def spec_split_model_def)


section \<open>Stop sequences\<close>

text \<open>
  C4 (an absent or fully empty input, also an empty or all-empty list, gives no stop
  sequences, never an empty list) fails for lists: the branch for arrays returns the
  filtered list as it is, so an empty list and a list of empty strings give the empty
  list, which is handed to \<open>generateText\<close>.
\<close>

theorem parseStopSequences_empty_list:
  "parseStopSequences h (JArr []) = Inr (Some [])
   \<and> parseStopSequences h (JArr [JStr []]) = Inr (Some [])"
  by (simp add: parseStopSequences_def)

text \<open>The branch for strings never returns the empty list.\<close>

lemma parseStopSequences_string_not_empty:
  "parseStopSequences h (JStr s) \<noteq> Inr (Some [])"
  by (simp add: parseStopSequences_def Let_def)

lemma parseStopSequences_string_example:
  "parseStopSequences h (JStr (''a, b'' @ [CHR 0x0A] @ ''c'')) = Inr (Some [''a'', ''b'', ''c''])"
  by (simp add: parseStopSequences_def Let_def trim_def trimEnd_def is_space_def)

lemma parseStopSequences_absent:
  "parseStopSequences h JUndefined = Inr None"
  "parseStopSequences h JNull = Inr None"
  "parseStopSequences h (JStr []) = Inr None"
  by (simp_all add: parseStopSequences_def)


section \<open>The JSON-expectation flag\<close>

text \<open>
  C9 as it is worded (true exactly for the boolean \<open>true\<close> and for a string equal to
  \<open>true\<close> up to case) fails for arrays: \<open>String\<close> joins the elements of an array,
  so the array with the one element \<open>true\<close> sets the flag.
\<close>

theorem expectJson_array_counterexample:
  "expectJson example_host (JArr [JStr ''true'']) = Inr True
   \<and> \<not> spec_expectJson (JArr [JStr ''true''] :: int jsval)"
  by (simp add: expectJson_def spec_expectJson_def or_else_def toLowerCase_def lower_def
      upper_letters_def lower_letters_def)

lemma or_else_String:
  "String_of h (or_else h v (JStr [])) = (if truthy h v then String_of h v else Inr [])"
  by (simp add: or_else_def)

lemma lower_true_not_empty: "toLowerCase [] \<noteq> ''true''"
  by (simp add: toLowerCase_def)

lemma true_literal:
  "toLowerCase ''true'' = ''true''"
  "toLowerCase ''false'' \<noteq> ''true''"
  "toLowerCase ''[object Object]'' \<noteq> ''true''"
  by (simp_all add: toLowerCase_def lower_def upper_letters_def lower_letters_def)

text \<open>
  C9, amended: the flag is true exactly for the boolean \<open>true\<close>, for a string equal to
  \<open>true\<close> up to case, and for an array that \<open>String\<close> converts to such a string; no
  number sets it, given that no number prints as \<open>true\<close>, and no plain object does.
\<close>

theorem expectJson_iff:
  assumes "\<forall>n. toLowerCase (Number_toString h n) \<noteq> ''true''"
  shows "expectJson h v = Inr True \<longleftrightarrow>
           v = JBool True
           \<or> (\<exists>s. v = JStr s \<and> toLowerCase s = ''true'')
           \<or> (\<exists>xs s. v = JArr xs \<and> String_of h (JArr xs) = Inr s \<and> toLowerCase s = ''true'')"
proof (cases v)
  case (JNum n)
  with assms show ?thesis by (simp add: expectJson_def or_else_String lower_true_not_empty)
next
  case (JBool b)
  then show ?thesis
    by (cases b) (simp_all add: expectJson_def or_else_String lower_true_not_empty true_literal)
next
  case (JStr s)
  then show ?thesis by (auto simp: expectJson_def or_else_String lower_true_not_empty)
next
  case (JArr xs)
  then show ?thesis
    by (cases "String_of h (JArr xs)")
       (simp_all add: expectJson_def or_else_String del: String_of.simps)
next
  case (JObj kvs)
  then show ?thesis
    by (simp add: expectJson_def or_else_String true_literal)
qed (simp_all add: expectJson_def or_else_String lower_true_not_empty)

text \<open>
  The witness: the example host, where numbers print in decimal. An object with a
  property \<open>toString\<close> gives no flag: the conversion throws.
\<close>

theorem expectJson_iff_witness:
  "(\<forall>n. toLowerCase (Number_toString example_host n) \<noteq> ''true'')
   \<and> expectJson example_host (JStr ''TRUE'') = Inr True
   \<and> expectJson example_host (JBool True) = Inr True
   \<and> expectJson example_host (JNum 1) \<noteq> Inr True
   \<and> expectJson example_host JUndefined \<noteq> Inr True
   \<and> expectJson example_host (JObj []) \<noteq> Inr True
   \<and> expectJson example_host (JObj [(''toString'', JNum 1)]) = Inl Convert_to_primitive"
proof -
  have t: "toLowerCase ''TRUE'' = ''true''"
    by (simp add: toLowerCase_def lower_def upper_letters_def lower_letters_def)
  have o: "expectJson example_host (JObj [(''toString'', JNum 1)]) = Inl Convert_to_primitive"
    by (simp add: expectJson_def or_else_def)
  note n = example_host_numbers
  show ?thesis
    using n t o expectJson_iff [OF n, of "JStr ''TRUE''"] expectJson_iff [OF n, of "JBool True"]
      expectJson_iff [OF n, of "JNum 1"] expectJson_iff [OF n, of JUndefined]
      expectJson_iff [OF n, of "JObj []"]
    by simp
qed


section \<open>JSON extraction\<close>

text \<open>
  C3: the candidate of \<open>extractJson\<close> is the trimmed text, or, when the trimmed text
  contains a fenced block, the content of the first one without its tag \<open>json\<close>,
  trimmed; a candidate that is not in braces or brackets gives no JSON whatever the
  parser would say; a candidate in braces or brackets is parsed. For the response of the
  example the candidate is the object's text, and when the parser returns the object, the
  object is the data written.
\<close>

theorem extractJson_fenced:
  \<open>candidate_of response = spec_candidate response
   \<and> (\<not> bracketed (candidate_of response) \<longrightarrow>
        extractJson h response = \<lparr>parsed = JNull, jsonText = JNull\<rparr>)
   \<and> (bracketed (candidate_of response) \<longrightarrow>
        extractJson h response =
          (case JSON_parse h (candidate_of response) of
             Inr v \<Rightarrow> \<lparr>parsed = v, jsonText = JStr (candidate_of response)\<rparr>
           | Inl message \<Rightarrow> \<lparr>parsed = JNull, jsonText = JStr (candidate_of response)\<rparr>))
   \<and> (JSON_parse h ''{"a":1}'' = Inr (JObj kvs) \<longrightarrow>
        extractJson h fenced_example
          = \<lparr>parsed = JObj kvs, jsonText = JStr ''{"a":1}''\<rparr>
        \<and> respond h expect fenced_example p
          = writeExit (Success (JObj kvs)) p)\<close>
proof (intro conjI impI)
  show "candidate_of response = spec_candidate response" by (rule candidate_of_eq)
next
  assume "\<not> bracketed (candidate_of response)"
  then show "extractJson h response = \<lparr>parsed = JNull, jsonText = JNull\<rparr>"
    by (simp add: extractJson_eq)
next
  assume "bracketed (candidate_of response)"
  then show "extractJson h response =
          (case JSON_parse h (candidate_of response) of
             Inr v \<Rightarrow> \<lparr>parsed = v, jsonText = JStr (candidate_of response)\<rparr>
           | Inl message \<Rightarrow> \<lparr>parsed = JNull, jsonText = JStr (candidate_of response)\<rparr>)"
    by (simp add: extractJson_eq)
next
  assume a: \<open>JSON_parse h ''{"a":1}'' = Inr (JObj kvs)\<close>
  then show \<open>extractJson h fenced_example
          = \<lparr>parsed = JObj kvs, jsonText = JStr ''{"a":1}''\<rparr>\<close>
    by (simp only: extractJson_eq candidate_of_example bracketed_example) simp
  then show \<open>respond h expect fenced_example p
          = writeExit (Success (JObj kvs)) p\<close>
    by (simp only: respond_def Let_def) simp
qed

text \<open>The witness: the example on the example host, and a fenced block that is not closed by a brace.\<close>

theorem extractJson_fenced_witness:
  \<open>JSON_parse example_host ''{"a":1}'' = Inr (JObj [(''a'', JNum 1)])
   \<and> respond example_host True fenced_example start
       = \<lparr>stdout = [Success (JObj [(''a'', JNum 1)])], exit_code = Some 0\<rparr>
   \<and> \<not> bracketed (candidate_of ''```json {"a":1``` and more'')
   \<and> extractJson example_host ''```json {"a":1``` and more'' = \<lparr>parsed = JNull, jsonText = JNull\<rparr>\<close>
proof -
  have b: \<open>\<not> bracketed (candidate_of ''```json {"a":1``` and more'')\<close>
    by (simp add: candidate_of_def match_at_def tagged_def fence_def toLowerCase_def lower_def
      upper_letters_def lower_letters_def trim_def trimEnd_def is_space_def bracketed_def suffix_def)
  show ?thesis
    using example_parse b
      extractJson_fenced [where h = example_host and kvs = "[(''a'', JNum 1)]" and expect = True
         and p = start and response = \<open>''```json {"a":1``` and more''\<close>]
    by (simp add: writeExit_def start_def)
qed


section \<open>The decision on the response\<close>

text \<open>
  C2: given that \<open>JSON.parse\<close> maps a text in braces or brackets to an object or an
  array, the final write is: the parsed value where the candidate is in braces or
  brackets and parses; with the flag set, a failure of the code \<open>json\<close> whose message
  says invalid JSON where there is such a candidate and it does not parse, and no JSON
  where there is none; without the flag, the original text under the key \<open>text\<close>.
\<close>

theorem respond_cases:
  assumes "\<forall>s v. JSON_parse h s = Inr v \<and> bracketed s \<longrightarrow>
             (\<exists>kvs. v = JObj kvs) \<or> (\<exists>xs. v = JArr xs)"
  shows "respond h expect response p =
     (if bracketed (candidate_of response) then
        (case JSON_parse h (candidate_of response) of
           Inr v \<Rightarrow> writeExit (Success v) p
         | Inl message \<Rightarrow>
             if expect then fail ''json'' ''Invalid JSON returned by model.'' p
             else writeExit (Success (JObj [(''text'', JStr response)])) p)
      else if expect then fail ''json'' ''No JSON returned by model.'' p
      else writeExit (Success (JObj [(''text'', JStr response)])) p)"
proof (cases "bracketed (candidate_of response)")
  case False
  then show ?thesis by (simp add: respond_def extractJson_eq)
next
  case True
  then have ne: "candidate_of response \<noteq> []" by (rule bracketed_not_Nil)
  show ?thesis
  proof (cases "JSON_parse h (candidate_of response)")
    case (Inl message)
    with True ne show ?thesis by (simp add: respond_def extractJson_eq)
  next
    case (Inr v)
    with assms True have "truthy h v" by fastforce
    with Inr True show ?thesis by (simp add: respond_def extractJson_eq)
  qed
qed

text \<open>The witness: four responses on the example host.\<close>

theorem respond_cases_witness:
  \<open>respond example_host True fenced_example start
       = \<lparr>stdout = [Success (JObj [(''a'', JNum 1)])], exit_code = Some 0\<rparr>
   \<and> respond example_host True ''{oops}'' start
       = \<lparr>stdout = [Failure ''json'' ''Invalid JSON returned by model.''], exit_code = Some 0\<rparr>
   \<and> respond example_host True ''Hello there'' start
       = \<lparr>stdout = [Failure ''json'' ''No JSON returned by model.''], exit_code = Some 0\<rparr>
   \<and> respond example_host False ''Hello there'' start
       = \<lparr>stdout = [Success (JObj [(''text'', JStr ''Hello there'')])], exit_code = Some 0\<rparr>\<close>
proof -
  have c: "candidate_of ''{oops}'' = ''{oops}''" "candidate_of ''Hello there'' = ''Hello there''"
    by (simp_all add: candidate_of_def match_at_def fence_def trim_def trimEnd_def is_space_def)
  have b: "bracketed ''{oops}''" "\<not> bracketed ''Hello there''"
    by (simp_all add: bracketed_def suffix_def)
  have p: "JSON_parse example_host ''{oops}'' = Inl ''Unexpected token''"
    by (simp add: example_host_def example_texts_def)
  note r = respond_cases [OF example_objects]
  show ?thesis
    using r [where expect = True and p = start
               and response = fenced_example]
      r [where expect = True and response = "''{oops}''" and p = start]
      r [where expect = True and response = "''Hello there''" and p = start]
      r [where expect = False and response = "''Hello there''" and p = start]
    by (simp add: c b p candidate_of_example bracketed_example example_parse
        fail_def writeExit_def start_def)
qed

end
